theory Spec2Isabelle
  imports Main "HOL-Library.Word" "HOL-Library.Signed_Division"
begin

unbundle bit_operations_syntax

section \<open>HoTT telemetry (telemetry_hott.c): data model\<close>

type_synonym u8 = "8 word"
type_synonym u16 = "16 word"
type_synonym u32 = "32 word"

text \<open>
  The two response frames are C structs declared in telemetry/hott.h, which is not among the
  sources. Each is a record of the byte fields that telemetry_hott.c reads or writes; every other
  byte of the struct is zeroed by \<^verbatim>\<open>memset\<close> at start-up and never written again.
  The two structs share some field names in C; the fields of the EAM record carry the
  prefix \<open>eam_\<close> where the name would clash.
\<close>

record HOTT_GPS_MSG_t =
  start_byte :: u8
  gps_sensor_id :: u8
  sensor_id :: u8
  gps_speed_L :: u8
  gps_speed_H :: u8
  pos_NS :: u8
  pos_NS_dm_L :: u8
  pos_NS_dm_H :: u8
  pos_NS_sec_L :: u8
  pos_NS_sec_H :: u8
  pos_EW :: u8
  pos_EW_dm_L :: u8
  pos_EW_dm_H :: u8
  pos_EW_sec_L :: u8
  pos_EW_sec_H :: u8
  home_distance_L :: u8
  home_distance_H :: u8
  altitude_L :: u8
  altitude_H :: u8
  gps_satelites :: u8
  gps_fix_char :: u8
  home_direction :: u8
  stop_byte :: u8

record HOTT_EAM_MSG_t =
  eam_start_byte :: u8
  eam_sensor_id :: u8
  eam_warning_beeps :: u8
  eam_text_sensor_id :: u8
  eam_alarm_invers1 :: u8
  batt1_voltage_L :: u8
  batt1_voltage_H :: u8
  main_voltage_L :: u8
  main_voltage_H :: u8
  eam_stop_byte :: u8

text \<open>
  What telemetry_hott.c takes from the missing header telemetry/hott.h, as a parameter:
  the protocol constants, the size of each struct (\<^verbatim>\<open>sizeof\<close>) and its memory layout,
  that is the bytes a \<^verbatim>\<open>uint8_t *\<close> walks over.
\<close>

record hott_defs =
  HOTT_BINARY_MODE_REQUEST_ID :: u8
  HOTT_TELEMETRY_EAM_SENSOR_ID :: u8
  HOTT_EAM_SENSOR_TEXT_ID :: u8
  HOTT_TELEMETRY_GPS_SENSOR_ID :: u8
  HOTT_GPS_SENSOR_TEXT_ID :: u8
  HOTT_GPS_ALTITUDE_OFFSET :: int
  sizeof_GPS_MSG :: nat
  sizeof_EAM_MSG :: nat
  gps_layout :: "HOTT_GPS_MSG_t \<Rightarrow> u8 list"
  eam_layout :: "HOTT_EAM_MSG_t \<Rightarrow> u8 list"

text \<open>A layout is that of a C struct when every value of the struct occupies \<^verbatim>\<open>sizeof\<close> bytes.\<close>

definition layout_ok :: "hott_defs \<Rightarrow> bool" where
  "layout_ok d \<longleftrightarrow>
     (\<forall>m. length (gps_layout d m) = sizeof_GPS_MSG d) \<and>
     (\<forall>m. length (eam_layout d m) = sizeof_EAM_MSG d)"

text \<open>
  The vehicle state the frames are composed from: the \<^verbatim>\<open>extern\<close> variables of io/gps.h
  (\<^verbatim>\<open>int32_t GPS_coord[2]\<close>, \<^verbatim>\<open>uint8_t GPS_numSat\<close>, ...), the flag \<^verbatim>\<open>f.GPS_FIX\<close>,
  the battery voltage \<^verbatim>\<open>vbat\<close> and \<^verbatim>\<open>sensors(SENSOR_GPS)\<close>. Signed C integers are words
  read with \<open>sint\<close>.
\<close>

record vehicle =
  GPS_FIX :: bool
  GPS_numSat :: u8
  GPS_coord_LAT :: u32
  GPS_coord_LON :: u32
  GPS_speed :: u16
  GPS_distanceToHome :: u16
  GPS_altitude :: u16
  GPS_directionToHome :: u16
  vbat :: u16
  sensors_GPS :: bool

datatype portMode_t = MODE_RX | MODE_TX

text \<open>
  Modelled from the spec: the serial driver (drivers/serial.h, io/serial.h), which is not among
  the sources. The spec names its operations: set-mode, write-byte, read-byte and
  bytes-waiting-count. The port holds the bytes received and not yet read, oldest first, and
  the bytes written so far, oldest first.
\<close>

record serialPort_t =
  mode :: portMode_t
  rxq :: "u8 list"
  txlog :: "u8 list"

definition serialSetMode :: "portMode_t \<Rightarrow> serialPort_t \<Rightarrow> serialPort_t" where
  "serialSetMode m p = p\<lparr>mode := m\<rparr>"

definition serialWrite :: "u8 \<Rightarrow> serialPort_t \<Rightarrow> serialPort_t" where
  "serialWrite c p = p\<lparr>txlog := txlog p @ [c]\<rparr>"

definition serialTotalBytesWaiting :: "serialPort_t \<Rightarrow> nat" where
  "serialTotalBytesWaiting p = length (rxq p)"

text \<open>Reading from an empty queue is never done by telemetry_hott.c; the model returns 0 there.\<close>

definition serialRead :: "serialPort_t \<Rightarrow> u8 \<times> serialPort_t" where
  "serialRead p = (case rxq p of [] \<Rightarrow> (0, p) | b # bs \<Rightarrow> (b, p\<lparr>rxq := bs\<rparr>))"

section \<open>Frame codec\<close>

definition GPS_FIX_CHAR_NONE :: u8 where "GPS_FIX_CHAR_NONE = 0x2D"
definition GPS_FIX_CHAR_2D :: u8 where "GPS_FIX_CHAR_2D = 0x32"
definition GPS_FIX_CHAR_3D :: u8 where "GPS_FIX_CHAR_3D = 0x33"
definition GPS_FIX_CHAR_DGPS :: u8 where "GPS_FIX_CHAR_DGPS = 0x44"

text \<open>
  \<^verbatim>\<open>memset(msg, 0, size)\<close> followed by the four header and trailer assignments.
\<close>

definition initialiseEAMMessage :: "hott_defs \<Rightarrow> HOTT_EAM_MSG_t" where
  "initialiseEAMMessage d =
     \<lparr>eam_start_byte = 0x7C, eam_sensor_id = HOTT_TELEMETRY_EAM_SENSOR_ID d,
      eam_warning_beeps = 0, eam_text_sensor_id = HOTT_EAM_SENSOR_TEXT_ID d,
      eam_alarm_invers1 = 0, batt1_voltage_L = 0, batt1_voltage_H = 0,
      main_voltage_L = 0, main_voltage_H = 0, eam_stop_byte = 0x7D\<rparr>"

definition initialiseGPSMessage :: "hott_defs \<Rightarrow> HOTT_GPS_MSG_t" where
  "initialiseGPSMessage d =
     \<lparr>start_byte = 0x7C, gps_sensor_id = HOTT_TELEMETRY_GPS_SENSOR_ID d,
      sensor_id = HOTT_GPS_SENSOR_TEXT_ID d, gps_speed_L = 0, gps_speed_H = 0,
      pos_NS = 0, pos_NS_dm_L = 0, pos_NS_dm_H = 0, pos_NS_sec_L = 0, pos_NS_sec_H = 0,
      pos_EW = 0, pos_EW_dm_L = 0, pos_EW_dm_H = 0, pos_EW_sec_L = 0, pos_EW_sec_H = 0,
      home_distance_L = 0, home_distance_H = 0, altitude_L = 0, altitude_H = 0,
      gps_satelites = 0, gps_fix_char = 0, home_direction = 0, stop_byte = 0x7D\<rparr>"

text \<open>
  \<^verbatim>\<open>addGPSCoordinates\<close>. C's \<^verbatim>\<open>/\<close> and \<^verbatim>\<open>%\<close> truncate towards zero (\<open>sdiv\<close>, \<open>smod\<close>);
  the arithmetic is done in \<^verbatim>\<open>long\<close> and each result is converted to the type of the
  variable that receives it: \<^verbatim>\<open>int16_t deg\<close>, \<^verbatim>\<open>int32_t sec\<close>, \<^verbatim>\<open>int8_t min\<close>,
  \<^verbatim>\<open>uint16_t degMin\<close>. \<^verbatim>\<open>sec >> 8\<close> shifts a signed value (arithmetic shift).
\<close>

definition addGPSCoordinates :: "HOTT_GPS_MSG_t \<Rightarrow> u32 \<Rightarrow> u32 \<Rightarrow> HOTT_GPS_MSG_t" where
  "addGPSCoordinates hottGPSMessage latitude longitude =
    (let deg = (word_of_int (sint latitude sdiv 10000000) :: 16 word);
         sec = (word_of_int ((sint latitude - sint deg * 10000000) * 6) :: 32 word);
         min' = (word_of_int (sint sec sdiv 1000000) :: 8 word);
         sec = (word_of_int ((sint sec smod 1000000) sdiv 100) :: 32 word);
         degMin = (word_of_int (sint deg * 100 + sint min') :: 16 word);
         hottGPSMessage = hottGPSMessage
           \<lparr>pos_NS := of_bool (sint latitude < 0),
            pos_NS_dm_L := ucast degMin,
            pos_NS_dm_H := ucast (drop_bit 8 degMin),
            pos_NS_sec_L := ucast sec,
            pos_NS_sec_H := ucast (signed_drop_bit 8 sec)\<rparr>;
         deg = (word_of_int (sint longitude sdiv 10000000) :: 16 word);
         sec = (word_of_int ((sint longitude - sint deg * 10000000) * 6) :: 32 word);
         min' = (word_of_int (sint sec sdiv 1000000) :: 8 word);
         sec = (word_of_int ((sint sec smod 1000000) sdiv 100) :: 32 word);
         degMin = (word_of_int (sint deg * 100 + sint min') :: 16 word)
     in hottGPSMessage
           \<lparr>pos_EW := of_bool (sint longitude < 0),
            pos_EW_dm_L := ucast degMin,
            pos_EW_dm_H := ucast (drop_bit 8 degMin),
            pos_EW_sec_L := ucast sec,
            pos_EW_sec_H := ucast (signed_drop_bit 8 sec)\<rparr>)"

text \<open>
  \<^verbatim>\<open>hottPrepareGPSResponse\<close>. The speed and the altitude are computed in \<^verbatim>\<open>int\<close> and
  stored in a \<^verbatim>\<open>uint16_t\<close>.
\<close>

definition hottPrepareGPSResponse :: "hott_defs \<Rightarrow> vehicle \<Rightarrow> HOTT_GPS_MSG_t \<Rightarrow> HOTT_GPS_MSG_t" where
  "hottPrepareGPSResponse d v hottGPSMessage =
    (let hottGPSMessage = hottGPSMessage\<lparr>gps_satelites := GPS_numSat v\<rparr>
     in if \<not> GPS_FIX v then hottGPSMessage\<lparr>gps_fix_char := GPS_FIX_CHAR_NONE\<rparr>
        else
          let hottGPSMessage =
                (if GPS_numSat v \<ge> 5 then hottGPSMessage\<lparr>gps_fix_char := GPS_FIX_CHAR_3D\<rparr>
                 else hottGPSMessage\<lparr>gps_fix_char := GPS_FIX_CHAR_2D\<rparr>);
              hottGPSMessage = addGPSCoordinates hottGPSMessage (GPS_coord_LAT v) (GPS_coord_LON v);
              speed = (word_of_int ((uint (GPS_speed v) div 100) * 36) :: 16 word);
              hottGPSMessage = hottGPSMessage
                \<lparr>gps_speed_L := ucast (speed AND 0x00FF),
                 gps_speed_H := ucast (drop_bit 8 speed)\<rparr>;
              hottGPSMessage = hottGPSMessage
                \<lparr>home_distance_L := ucast (GPS_distanceToHome v AND 0x00FF),
                 home_distance_H := ucast (drop_bit 8 (GPS_distanceToHome v))\<rparr>;
              hottGpsAltitude =
                (word_of_int (uint (GPS_altitude v) div 10 + HOTT_GPS_ALTITUDE_OFFSET d) :: 16 word);
              hottGPSMessage = hottGPSMessage
                \<lparr>altitude_L := ucast (hottGpsAltitude AND 0x00FF),
                 altitude_H := ucast (drop_bit 8 hottGpsAltitude)\<rparr>
          in hottGPSMessage\<lparr>home_direction := ucast (GPS_directionToHome v)\<rparr>)"

definition hottEAMUpdateBattery :: "vehicle \<Rightarrow> HOTT_EAM_MSG_t \<Rightarrow> HOTT_EAM_MSG_t" where
  "hottEAMUpdateBattery v hottEAMMessage =
     hottEAMMessage
       \<lparr>main_voltage_L := ucast (vbat v AND 0xFF),
        main_voltage_H := ucast (drop_bit 8 (vbat v)),
        batt1_voltage_L := ucast (vbat v AND 0xFF),
        batt1_voltage_H := ucast (drop_bit 8 (vbat v))\<rparr>"

definition hottPrepareEAMResponse :: "vehicle \<Rightarrow> HOTT_EAM_MSG_t \<Rightarrow> HOTT_EAM_MSG_t" where
  "hottPrepareEAMResponse v hottEAMMessage =
     hottEAMUpdateBattery v (hottEAMMessage\<lparr>eam_warning_beeps := 0x0, eam_alarm_invers1 := 0x0\<rparr>)"

section \<open>Module state\<close>

text \<open>
  \<^verbatim>\<open>hottMsg\<close> is a \<^verbatim>\<open>uint8_t *\<close> that is either \<^verbatim>\<open>NULL\<close> or points into one of the two
  static frames: the frame it points into and the byte offset from the start of that frame.
  The frames live in the state, so a refresh of a frame is seen by a send that is reading it.
\<close>

datatype hott_buffer = GPS_BUFFER | EAM_BUFFER

record hott_state =
  lastHoTTRequestCheckAt :: u32
  lastMessagesPreparedAt :: u32
  hottIsSending :: bool
  hottMsg :: "(hott_buffer \<times> nat) option"
  hottMsgRemainingBytesToSendCount :: u8
  hottMsgCrc :: u8
  hottPort :: serialPort_t
  hottGPSMessage :: HOTT_GPS_MSG_t
  hottEAMMessage :: HOTT_EAM_MSG_t
  serialWrites :: u8
  lookingForRequest :: bool
  serialTimer :: u32

definition HOTT_MESSAGE_PREPARATION_FREQUENCY_5_HZ :: u32 where
  "HOTT_MESSAGE_PREPARATION_FREQUENCY_5_HZ = (1000 * 1000) div 5"

definition HOTT_RX_SCHEDULE :: u32 where "HOTT_RX_SCHEDULE = 4000"

definition HOTT_TX_DELAY_US :: u32 where "HOTT_TX_DELAY_US = 3000"

definition HOTT_CRC_SIZE :: int where "HOTT_CRC_SIZE = 1"

text \<open>The static initialisers, and \<^verbatim>\<open>initHoTTTelemetry\<close> on a port in receive mode.\<close>

definition initHoTTTelemetry :: "hott_defs \<Rightarrow> hott_state" where
  "initHoTTTelemetry d =
     \<lparr>lastHoTTRequestCheckAt = 0, lastMessagesPreparedAt = 0, hottIsSending = False,
      hottMsg = None, hottMsgRemainingBytesToSendCount = 0, hottMsgCrc = 0,
      hottPort = \<lparr>mode = MODE_RX, rxq = [], txlog = []\<rparr>,
      hottGPSMessage = initialiseGPSMessage d, hottEAMMessage = initialiseEAMMessage d,
      serialWrites = 0, lookingForRequest = True, serialTimer = 0\<rparr>"

text \<open>
  \<^verbatim>\<open>*hottMsg\<close>: the byte at the offset in the frame as it is now. A read past the end of the
  struct is undefined in C; the model reads 0 there. In a send the pointer stays inside the
  frame (\<open>in_send\<close> below), so a send never does it.
\<close>

definition buffer_bytes :: "hott_defs \<Rightarrow> hott_state \<Rightarrow> hott_buffer \<Rightarrow> u8 list" where
  "buffer_bytes d s b =
     (case b of GPS_BUFFER \<Rightarrow> gps_layout d (hottGPSMessage s)
              | EAM_BUFFER \<Rightarrow> eam_layout d (hottEAMMessage s))"

definition deref :: "hott_defs \<Rightarrow> hott_state \<Rightarrow> hott_buffer \<Rightarrow> nat \<Rightarrow> u8" where
  "deref d s b off =
     (let bs = buffer_bytes d s b in if off < length bs then bs ! off else 0)"

section \<open>Frame transmitter and request detector\<close>

definition hottSerialWrite :: "u8 \<Rightarrow> hott_state \<Rightarrow> hott_state" where
  "hottSerialWrite c s =
     s\<lparr>serialWrites := serialWrites s + 1, hottPort := serialWrite c (hottPort s)\<rparr>"

text \<open>
  \<^verbatim>\<open>hottSendResponse\<close>: \<^verbatim>\<open>length\<close> is an \<^verbatim>\<open>int\<close>, the count a \<^verbatim>\<open>uint8_t\<close>.
\<close>

definition hottSendResponse :: "hott_buffer \<Rightarrow> int \<Rightarrow> hott_state \<Rightarrow> hott_state" where
  "hottSendResponse buffer len s =
     (if hottIsSending s then s
      else s\<lparr>hottMsg := Some (buffer, 0),
             hottMsgRemainingBytesToSendCount := word_of_int (len + HOTT_CRC_SIZE)\<rparr>)"

definition hottSendGPSResponse :: "hott_defs \<Rightarrow> hott_state \<Rightarrow> hott_state" where
  "hottSendGPSResponse d s = hottSendResponse GPS_BUFFER (int (sizeof_GPS_MSG d)) s"

definition hottSendEAMResponse :: "hott_defs \<Rightarrow> hott_state \<Rightarrow> hott_state" where
  "hottSendEAMResponse d s = hottSendResponse EAM_BUFFER (int (sizeof_EAM_MSG d)) s"

definition hottPrepareMessages :: "hott_defs \<Rightarrow> vehicle \<Rightarrow> hott_state \<Rightarrow> hott_state" where
  "hottPrepareMessages d v s =
     (let s = s\<lparr>hottEAMMessage := hottPrepareEAMResponse v (hottEAMMessage s)\<rparr>
      in s\<lparr>hottGPSMessage := hottPrepareGPSResponse d v (hottGPSMessage s)\<rparr>)"

definition processBinaryModeRequest :: "hott_defs \<Rightarrow> vehicle \<Rightarrow> u8 \<Rightarrow> hott_state \<Rightarrow> hott_state" where
  "processBinaryModeRequest d v address s =
     (if address = 0x8A then (if sensors_GPS v then hottSendGPSResponse d s else s)
      else if address = 0x8E then hottSendEAMResponse d s
      else s)"

text \<open>\<^verbatim>\<open>while (serialTotalBytesWaiting(hottPort) > 0) serialRead(hottPort);\<close>\<close>

function flushHottRxBuffer :: "serialPort_t \<Rightarrow> serialPort_t" where
  "flushHottRxBuffer p =
     (if serialTotalBytesWaiting p > 0 then flushHottRxBuffer (snd (serialRead p)) else p)"
  by pat_completeness auto
termination
  by (relation "measure (\<lambda>p. length (rxq p))")
     (auto simp: serialTotalBytesWaiting_def serialRead_def split: list.splits)

declare flushHottRxBuffer.simps [simp del]

text \<open>
  \<^verbatim>\<open>hottCheckSerialData\<close>. The count is stored in a \<^verbatim>\<open>uint8_t\<close>; the elapsed time is an
  unsigned 32-bit difference, which wraps around.
\<close>

definition bytesWaiting :: "hott_state \<Rightarrow> u8" where
  "bytesWaiting s = of_nat (serialTotalBytesWaiting (hottPort s))"

definition hottCheckSerialData :: "hott_defs \<Rightarrow> vehicle \<Rightarrow> u32 \<Rightarrow> hott_state \<Rightarrow> hott_state" where
  "hottCheckSerialData d v currentMicros s =
     (if bytesWaiting s \<le> 1 then s
      else if bytesWaiting s \<noteq> 2 then
        s\<lparr>hottPort := flushHottRxBuffer (hottPort s), lookingForRequest := True\<rparr>
      else if lookingForRequest s then
        s\<lparr>lastHoTTRequestCheckAt := currentMicros, lookingForRequest := False\<rparr>
      else
        let enoughTimePassed = (currentMicros - lastHoTTRequestCheckAt s \<ge> HOTT_RX_SCHEDULE)
        in if \<not> enoughTimePassed then s
           else
             let s = s\<lparr>lookingForRequest := True\<rparr>;
                 (requestId, p) = serialRead (hottPort s);
                 (address, p) = serialRead p;
                 s = s\<lparr>hottPort := p\<rparr>
             in if requestId = HOTT_BINARY_MODE_REQUEST_ID d
                then processBinaryModeRequest d v address s else s)"

text \<open>
  \<^verbatim>\<open>hottSendTelemetryData\<close>. \<^verbatim>\<open>handleHoTTTelemetry\<close> returns before the call when
  \<^verbatim>\<open>hottMsg\<close> is \<^verbatim>\<open>NULL\<close>, so the last branch never reads through a null pointer; the model
  leaves the state as it is there.
\<close>

definition hottSendTelemetryData :: "hott_defs \<Rightarrow> hott_state \<Rightarrow> hott_state" where
  "hottSendTelemetryData d s =
     (if \<not> hottIsSending s then
        s\<lparr>hottIsSending := True, hottPort := serialSetMode MODE_TX (hottPort s), hottMsgCrc := 0\<rparr>
      else if hottMsgRemainingBytesToSendCount s = 0 then
        s\<lparr>hottMsg := None, hottIsSending := False,
          hottPort := flushHottRxBuffer (serialSetMode MODE_RX (hottPort s))\<rparr>
      else
        let s = s\<lparr>hottMsgRemainingBytesToSendCount := hottMsgRemainingBytesToSendCount s - 1\<rparr>
        in if hottMsgRemainingBytesToSendCount s = 0 then
             hottSerialWrite (hottMsgCrc s) (s\<lparr>hottMsgCrc := hottMsgCrc s + 1\<rparr>)
           else
             (case hottMsg s of
                None \<Rightarrow> s
              | Some (b, off) \<Rightarrow>
                  let c = deref d s b off;
                      s = s\<lparr>hottMsgCrc := hottMsgCrc s + c\<rparr>
                  in hottSerialWrite c (s\<lparr>hottMsg := Some (b, off + 1)\<rparr>)))"

section \<open>Session dispatcher\<close>

definition shouldPrepareHoTTMessages :: "u32 \<Rightarrow> hott_state \<Rightarrow> bool" where
  "shouldPrepareHoTTMessages currentMicros s \<longleftrightarrow>
     currentMicros - lastMessagesPreparedAt s \<ge> HOTT_MESSAGE_PREPARATION_FREQUENCY_5_HZ"

definition shouldCheckForHoTTRequest :: "hott_state \<Rightarrow> bool" where
  "shouldCheckForHoTTRequest s = (if hottIsSending s then False else True)"

text \<open>\<^verbatim>\<open>handleHoTTTelemetry\<close>; \<open>now\<close> is what \<^verbatim>\<open>micros()\<close> returns on this call.\<close>

definition handleHoTTTelemetry :: "hott_defs \<Rightarrow> vehicle \<Rightarrow> u32 \<Rightarrow> hott_state \<Rightarrow> hott_state" where
  "handleHoTTTelemetry d v now s =
     (let s = (if shouldPrepareHoTTMessages now s
               then (hottPrepareMessages d v s)\<lparr>lastMessagesPreparedAt := now\<rparr> else s);
          s = (if shouldCheckForHoTTRequest s then hottCheckSerialData d v now s else s)
      in if hottMsg s = None then s
         else if hottIsSending s \<and> now - serialTimer s < HOTT_TX_DELAY_US then s
         else (hottSendTelemetryData d s)\<lparr>serialTimer := now\<rparr>)"

text \<open>
  One call of the dispatcher by the host loop, with what the environment did since the previous
  call: the clock, the vehicle state, and the bytes that arrived on the wire.
\<close>

record tick_in =
  tick_now :: u32
  tick_vehicle :: vehicle
  tick_rx :: "u8 list"

definition receive :: "u8 list \<Rightarrow> hott_state \<Rightarrow> hott_state" where
  "receive bs s = s\<lparr>hottPort := (hottPort s)\<lparr>rxq := rxq (hottPort s) @ bs\<rparr>\<rparr>"

definition tick :: "hott_defs \<Rightarrow> tick_in \<Rightarrow> hott_state \<Rightarrow> hott_state" where
  "tick d i s = handleHoTTTelemetry d (tick_vehicle i) (tick_now i) (receive (tick_rx i) s)"

text \<open>The dispatcher called once for each input, in order.\<close>

fun run :: "hott_defs \<Rightarrow> tick_in list \<Rightarrow> hott_state \<Rightarrow> hott_state" where
  "run d [] s = s"
| "run d (i # is) s = run d is (tick d i s)"

text \<open>The same, stopping when no send is in progress.\<close>

fun run_send :: "hott_defs \<Rightarrow> tick_in list \<Rightarrow> hott_state \<Rightarrow> hott_state" where
  "run_send d [] s = s"
| "run_send d (i # is) s = (if hottIsSending s then run_send d is (tick d i s) else s)"

section \<open>The formulas of the specification, and inputs to evaluate on\<close>

text \<open>The value of a little-endian pair of bytes.\<close>

definition le16 :: "u8 \<Rightarrow> u8 \<Rightarrow> int" where
  "le16 lo hi = uint lo + 256 * uint hi"

text \<open>
  The coordinate formula in the words of the specification, on a value \<open>v\<close> in units of
  1e-7 degrees: \<open>deg = v / 10,000,000\<close>, \<open>sec = (v - deg * 10,000,000) * 6\<close>,
  \<open>min = sec / 1,000,000\<close>, \<open>sec = (sec mod 1,000,000) / 100\<close>,
  \<open>degMin = deg * 100 + min\<close>, with the division and remainder of C.
\<close>

definition spec_deg :: "int \<Rightarrow> int" where
  "spec_deg v = v sdiv 10000000"

definition spec_sec6 :: "int \<Rightarrow> int" where
  "spec_sec6 v = (v - spec_deg v * 10000000) * 6"

definition spec_min :: "int \<Rightarrow> int" where
  "spec_min v = spec_sec6 v sdiv 1000000"

definition spec_sec :: "int \<Rightarrow> int" where
  "spec_sec v = (spec_sec6 v smod 1000000) sdiv 100"

definition spec_degMin :: "int \<Rightarrow> int" where
  "spec_degMin v = spec_deg v * 100 + spec_min v"

text \<open>
  An instance of the header, to evaluate the program on concrete inputs: the constants of the
  HoTT protocol, and two short layouts.
\<close>

definition hott_h :: hott_defs where
  "hott_h =
     \<lparr>HOTT_BINARY_MODE_REQUEST_ID = 0x80, HOTT_TELEMETRY_EAM_SENSOR_ID = 0x8E,
      HOTT_EAM_SENSOR_TEXT_ID = 0xE0, HOTT_TELEMETRY_GPS_SENSOR_ID = 0x8A,
      HOTT_GPS_SENSOR_TEXT_ID = 0xA0, HOTT_GPS_ALTITUDE_OFFSET = 500,
      sizeof_GPS_MSG = 4, sizeof_EAM_MSG = 3,
      gps_layout = (\<lambda>m. [start_byte m, gps_satelites m, gps_fix_char m, stop_byte m]),
      eam_layout = (\<lambda>m. [eam_start_byte m, main_voltage_L m, eam_stop_byte m])\<rparr>"

text \<open>A vehicle with a fix, north of the equator and west of Greenwich, at 25 m/s.\<close>

definition v0 :: vehicle where
  "v0 = \<lparr>GPS_FIX = True, GPS_numSat = 7, GPS_coord_LAT = 123456789, GPS_coord_LON = - 123456789,
     GPS_speed = 250, GPS_distanceToHome = 300, GPS_altitude = 1234, GPS_directionToHome = 90,
     vbat = 126, sensors_GPS = True\<rparr>"

text \<open>
  Ticks of the host loop at a given time in microseconds, with \<open>v0\<close> as the vehicle, and the
  state of a session in which the detector has armed the window at time 1000 on the bytes
  \<open>req\<close>.
\<close>

definition tin :: "nat \<Rightarrow> u8 list \<Rightarrow> tick_in" where
  "tin t bs = \<lparr>tick_now = of_nat t, tick_vehicle = v0, tick_rx = bs\<rparr>"

definition armed :: "u8 list \<Rightarrow> hott_state" where
  "armed req = tick hott_h (tin 1000 req) (initHoTTTelemetry hott_h)"

text \<open>
  The first step of \<^verbatim>\<open>handleHoTTTelemetry\<close>, the refresh of the two frames when it is due,
  named so that the proofs can speak of the state it leaves.
\<close>

definition prepare_step :: "hott_defs \<Rightarrow> vehicle \<Rightarrow> u32 \<Rightarrow> hott_state \<Rightarrow> hott_state" where
  "prepare_step d v now s =
     (if shouldPrepareHoTTMessages now s
      then (hottPrepareMessages d v s)\<lparr>lastMessagesPreparedAt := now\<rparr> else s)"

text \<open>
  The state of a send of the frame \<open>b\<close> of \<open>N\<close> bytes, which began when \<open>L\<close> had been
  written to the port and has written \<open>W\<close> since: the pointer is \<open>length W\<close> bytes into the
  frame, the count is what remains of \<open>N + 1\<close>, and the accumulator is the sum of \<open>W\<close> until
  the checksum itself is written. \<open>send_done\<close> is the state that the completion of that
  send leaves.
\<close>

definition in_send :: "hott_buffer \<Rightarrow> nat \<Rightarrow> u8 list \<Rightarrow> u8 list \<Rightarrow> hott_state \<Rightarrow> bool" where
  "in_send b N L W s \<longleftrightarrow>
     hottIsSending s \<and> txlog (hottPort s) = L @ W \<and> length W \<le> N + 1 \<and>
     hottMsg s = Some (b, min (length W) N) \<and>
     unat (hottMsgRemainingBytesToSendCount s) = N + 1 - length W \<and>
     (if length W \<le> N then hottMsgCrc s = sum_list W else last W = sum_list (butlast W))"

definition send_done :: "nat \<Rightarrow> u8 list \<Rightarrow> u8 list \<Rightarrow> hott_state \<Rightarrow> bool" where
  "send_done N L W s \<longleftrightarrow>
     \<not> hottIsSending s \<and> hottMsg s = None \<and> mode (hottPort s) = MODE_RX \<and>
     rxq (hottPort s) = [] \<and> txlog (hottPort s) = L @ W \<and> length W = N + 1 \<and>
     last W = sum_list (butlast W)"

text \<open>
  \<^verbatim>\<open>sizeof\<close> of the frame a pointer points into; the bytes written to the port between two
  states; and a list of ticks each at least \<^verbatim>\<open>HOTT_TX_DELAY_US\<close> after the one before,
  the first after the time \<open>t\<close>.
\<close>

definition frame_size :: "hott_defs \<Rightarrow> hott_buffer \<Rightarrow> nat" where
  "frame_size d b = (case b of GPS_BUFFER \<Rightarrow> sizeof_GPS_MSG d | EAM_BUFFER \<Rightarrow> sizeof_EAM_MSG d)"

definition written :: "hott_state \<Rightarrow> hott_state \<Rightarrow> u8 list" where
  "written s s' = drop (length (txlog (hottPort s))) (txlog (hottPort s'))"

fun spaced :: "u32 \<Rightarrow> tick_in list \<Rightarrow> bool" where
  "spaced t [] = True"
| "spaced t (i # is) = (HOTT_TX_DELAY_US \<le> tick_now i - t \<and> spaced (tick_now i) is)"

text \<open>
  The bytes of a frame followed by their sum, and the ticks at which no refresh of the frames
  is due, the last refresh being that of the state \<open>s\<close>.
\<close>

definition frame_then_checksum :: "hott_defs \<Rightarrow> hott_state \<Rightarrow> hott_buffer \<Rightarrow> u8 list" where
  "frame_then_checksum d s b = buffer_bytes d s b @ [sum_list (buffer_bytes d s b)]"

definition no_refresh_due :: "tick_in list \<Rightarrow> hott_state \<Rightarrow> bool" where
  "no_refresh_due ins s \<longleftrightarrow>
     list_all (\<lambda>i. tick_now i - lastMessagesPreparedAt s < HOTT_MESSAGE_PREPARATION_FREQUENCY_5_HZ) ins"

text \<open>
  What the request detector can have done to an idle state \<open>s\<close>: no send is in progress, the
  port's mode and the bytes written are as in \<open>s\<close>, and the pending message is as in \<open>s\<close> or
  is one of the two frames, from its first byte, with the count \<^verbatim>\<open>sizeof + 1\<close>.
\<close>

definition scheduled :: "hott_defs \<Rightarrow> hott_state \<Rightarrow> hott_state \<Rightarrow> bool" where
  "scheduled d s c \<longleftrightarrow>
     \<not> hottIsSending c \<and> txlog (hottPort c) = txlog (hottPort s) \<and>
     mode (hottPort c) = mode (hottPort s) \<and>
     (hottMsg c = hottMsg s \<or>
      (\<exists>b. hottMsg c = Some (b, 0) \<and>
           hottMsgRemainingBytesToSendCount c = word_of_int (int (frame_size d b) + 1)))"

text \<open>
  A session in which the request for the GPS frame is consumed at time 250000, when a refresh
  is due as well, and the ticks that follow: seven ticks of which one comes too early and one
  brings a request for the EAM frame, six ticks 3000 microseconds apart, and the first two
  ticks alone. \<open>v1\<close> is the vehicle with fewer satellites in view and another battery
  voltage.
\<close>

definition started :: hott_state where
  "started = tick hott_h (tin 250000 []) (armed [0x80, 0x8A])"

definition send_ticks :: "tick_in list" where
  "send_ticks = [tin 253000 [0x80, 0x8E], tin 256000 [], tin 257000 [], tin 259000 [],
                tin 262000 [], tin 265000 [], tin 268000 []]"

definition spaced_ticks :: "tick_in list" where
  "spaced_ticks = [tin 253000 [], tin 256000 [], tin 259000 [], tin 262000 [],
                   tin 265000 [], tin 268000 []]"

definition two_ticks :: "tick_in list" where
  "two_ticks = [tin 253000 [0x80, 0x8E], tin 256000 []]"


section \<open>Arithmetic of C on bytes and words\<close>

lemma sdiv_nonneg: "0 \<le> a \<Longrightarrow> 0 < b \<Longrightarrow> (a::int) sdiv b = a div b"
  by (simp add: signed_divide_int_def sgn_if)

lemma sdiv_neg: "a < 0 \<Longrightarrow> 0 < b \<Longrightarrow> (a::int) sdiv b = - ((- a) div b)"
  by (simp add: signed_divide_int_def sgn_if)

lemma sdiv_minus: "(- a) sdiv b = - ((a::int) sdiv b)"
  by (simp add: signed_divide_int_def sgn_if)

lemma smod_nonneg: "0 \<le> a \<Longrightarrow> 0 < b \<Longrightarrow> (a::int) smod b = a mod b"
  by (simp add: signed_modulo_int_def sgn_if)

lemma smod_neg: "a < 0 \<Longrightarrow> 0 < b \<Longrightarrow> (a::int) smod b = - ((- a) mod b)"
  by (simp add: signed_modulo_int_def sgn_if)

lemma sint_of_int_range:
  "- (2 ^ (LENGTH('a) - 1)) \<le> x \<Longrightarrow> x < 2 ^ (LENGTH('a) - 1)
   \<Longrightarrow> sint (word_of_int x :: 'a::len word) = x"
  by (simp add: signed_of_int signed_take_bit_int_eq_self)

lemma div_range:
  "0 \<le> (a::int) \<Longrightarrow> a \<le> k \<Longrightarrow> 0 < c \<Longrightarrow> 0 \<le> a div c \<and> a div c \<le> k div c"
  by (simp add: zdiv_mono1 pos_imp_zdiv_nonneg_iff)

lemma uint_ucast_u8: "uint (ucast (w::'a::len word) :: u8) = uint w mod 256"
  by (simp add: unsigned_ucast_eq take_bit_eq_mod)

lemma uint_drop8_u16: "uint (ucast (drop_bit 8 (w::u16)) :: u8) = uint w div 256"
proof -
  have "uint w < 65536" using uint_lt2p [of w] by simp
  then have "uint w div 256 < 256" by simp
  moreover have "0 \<le> uint w div 256" by (simp add: div_int_pos_iff)
  ultimately show ?thesis
    by (simp add: unsigned_ucast_eq unsigned_drop_bit_eq take_bit_eq_mod drop_bit_eq_div uint_div_distrib)
qed

lemma le_pair_u16: "uint (ucast (w::u16) :: u8) + 256 * uint (ucast (drop_bit 8 w) :: u8) = uint w"
  unfolding uint_ucast_u8 [of w] uint_drop8_u16 by simp

lemma mask_ff_u16: "(ucast ((w::u16) AND 0x00FF) :: u8) = ucast w"
proof -
  have m: "(0x00FF :: u16) = mask 8" by (simp add: mask_eq_exp_minus_1)
  show ?thesis unfolding m by (rule bit_word_eqI) (auto simp: bit_simps)
qed

lemma sdrop_u32: "uint (ucast (signed_drop_bit 8 (w::u32)) :: u8) = (uint w div 256) mod 256"
proof -
  have "(ucast (signed_drop_bit 8 w) :: u8) = ucast (drop_bit 8 w)"
    by (rule bit_word_eqI) (auto simp: bit_simps)
  then show ?thesis
    by (simp add: unsigned_ucast_eq unsigned_drop_bit_eq take_bit_eq_mod drop_bit_eq_div uint_div_distrib)
qed

lemma split16: "(k::int) mod 65536 = k mod 256 + 256 * ((k div 256) mod 256)"
  using zmod_zmult2_eq [of 256 k 256] by simp

lemma le_pair_s32: "uint (ucast (w::u32) :: u8) + 256 * uint (ucast (signed_drop_bit 8 w) :: u8) = uint w mod 65536"
  unfolding uint_ucast_u8 [of w] sdrop_u32 split16 [of "uint w"] by simp

lemma pair16_of_int:
  "uint (ucast (word_of_int k :: u16) :: u8) + 256 * uint (ucast (drop_bit 8 (word_of_int k :: u16)) :: u8)
   = k mod 65536"
  unfolding le_pair_u16 by (simp add: uint_word_of_int)

lemma pair32_of_int:
  "uint (ucast (word_of_int k :: u32) :: u8) + 256 * uint (ucast (signed_drop_bit 8 (word_of_int k :: u32)) :: u8)
   = k mod 65536"
proof -
  have "k mod 4294967296 mod 65536 = k mod 65536"
    by (rule mod_mod_cancel) simp
  then show ?thesis unfolding le_pair_s32 by (simp add: uint_word_of_int)
qed

lemma sint_u32_range: "- 2147483648 \<le> sint (w::u32) \<and> sint w < 2147483648"
  using sint_ge [of w] sint_lt [of w] by simp

lemma u8_two_le_one: "((2::u8) \<le> 1) = False"
  by (simp add: word_le_def)

lemma u8_count_cases: "(x::u8) \<le> 1 \<or> x = 2 \<or> 2 < x"
  by unat_arith

lemma unat_count: "N \<le> 254 \<Longrightarrow> unat (word_of_int (int N + 1) :: u8) = N + 1"
proof -
  assume "N \<le> 254"
  have "(word_of_int (int N + 1) :: u8) = of_nat (N + 1)" by simp
  then show ?thesis using \<open>N \<le> 254\<close> by (simp only: unat_of_nat) simp
qed

lemma count_cases:
  assumes "unat (c::u8) = N + 1 - n" "n \<le> N + 1"
  shows "(n = N + 1 \<longrightarrow> c = 0) \<and> (n = N \<longrightarrow> c = 1) \<and>
         (n < N \<longrightarrow> c \<noteq> 0 \<and> c \<noteq> 1 \<and> unat (c - 1) = N + 1 - (n + 1))"
proof (intro conjI impI)
  assume "n = N + 1"
  with assms show "c = 0" by (simp add: unat_0_iff)
next
  assume "n = N"
  with assms have "unat c = unat (1::u8)" by simp
  then show "c = 1" by (simp only: word_unat_eq_iff)
next
  assume lt: "n < N"
  with assms have u: "unat c = N + 1 - n" "2 \<le> unat c" by simp_all
  then show "c \<noteq> 0" by (auto simp: unat_0_iff)
  then have "unat (c - 1) = unat c - 1" by (rule unat_minus_one)
  with u lt show "unat (c - 1) = N + 1 - (n + 1)" by simp
  from u show "c \<noteq> 1" by auto
qed

lemma unat_sum_list_u8: "unat (sum_list (ws::u8 list)) = sum_list (map unat ws) mod 256"
proof (induction ws)
  case Nil
  show ?case by simp
next
  case (Cons w ws)
  have "unat (w + sum_list ws) = (unat w + unat (sum_list ws)) mod 256"
    by (simp add: unat_word_ariths)
  also have "\<dots> = (unat w + sum_list (map unat ws) mod 256) mod 256"
    by (simp only: Cons.IH)
  also have "\<dots> = (unat w + sum_list (map unat ws)) mod 256"
    by (rule mod_add_right_eq)
  finally show ?case by simp
qed

lemma take_Suc_snoc: "k < length xs \<Longrightarrow> take (Suc k) xs = take k xs @ [xs ! k]"
  by (rule take_Suc_conv_app_nth)

section \<open>The coordinate formula stays within the C types\<close>

lemma spec_deg_bounds:
  assumes "- 2147483648 \<le> v" "v < 2147483648"
  shows "- 214 \<le> spec_deg v \<and> spec_deg v \<le> 214"
proof (cases "0 \<le> v")
  case True
  then have "spec_deg v = v div 10000000" by (simp add: spec_deg_def sdiv_nonneg)
  moreover have "0 \<le> v div 10000000 \<and> v div 10000000 \<le> 2147483647 div 10000000"
    using True assms by (intro div_range) simp_all
  ultimately show ?thesis by simp
next
  case False
  then have "spec_deg v = - ((- v) div 10000000)" by (simp add: spec_deg_def sdiv_neg)
  moreover have "0 \<le> (- v) div 10000000 \<and> (- v) div 10000000 \<le> 2147483648 div 10000000"
    using False assms by (intro div_range) simp_all
  ultimately show ?thesis by simp
qed

lemma spec_sec6_eq: "spec_sec6 v = (v smod 10000000) * 6"
  by (simp add: spec_sec6_def spec_deg_def minus_sdiv_mult_eq_smod)

lemma spec_sec6_bounds: "- 60000000 < spec_sec6 v \<and> spec_sec6 v < 60000000"
proof (cases "0 \<le> v")
  case True
  then have "spec_sec6 v = (v mod 10000000) * 6" by (simp add: spec_sec6_eq smod_nonneg)
  moreover have "0 \<le> v mod 10000000" "v mod 10000000 < 10000000" by simp_all
  ultimately show ?thesis by simp
next
  case False
  then have "spec_sec6 v = - ((- v) mod 10000000) * 6" by (simp add: spec_sec6_eq smod_neg)
  moreover have "0 \<le> (- v) mod 10000000" "(- v) mod 10000000 < 10000000" by simp_all
  ultimately show ?thesis by simp
qed

lemma spec_sec6_sign: "(0 \<le> v \<longrightarrow> 0 \<le> spec_sec6 v) \<and> (v < 0 \<longrightarrow> spec_sec6 v \<le> 0)"
proof (cases "0 \<le> v")
  case True
  then have "spec_sec6 v = (v mod 10000000) * 6" by (simp add: spec_sec6_eq smod_nonneg)
  moreover have "0 \<le> v mod 10000000" by simp
  ultimately show ?thesis using True by simp
next
  case False
  then have "spec_sec6 v = - ((- v) mod 10000000) * 6" by (simp add: spec_sec6_eq smod_neg)
  moreover have "0 \<le> (- v) mod 10000000" by simp
  ultimately show ?thesis using False by simp
qed

lemma spec_min_bounds: "- 59 \<le> spec_min v \<and> spec_min v \<le> 59"
proof (cases "0 \<le> spec_sec6 v")
  case True
  then have "spec_min v = spec_sec6 v div 1000000" by (simp add: spec_min_def sdiv_nonneg)
  moreover have "0 \<le> spec_sec6 v div 1000000 \<and> spec_sec6 v div 1000000 \<le> 59999999 div 1000000"
    using True spec_sec6_bounds [of v] by (intro div_range) simp_all
  ultimately show ?thesis by simp
next
  case False
  then have "spec_min v = - ((- spec_sec6 v) div 1000000)" by (simp add: spec_min_def sdiv_neg)
  moreover have "0 \<le> (- spec_sec6 v) div 1000000 \<and> (- spec_sec6 v) div 1000000 \<le> 59999999 div 1000000"
    using False spec_sec6_bounds [of v] by (intro div_range) simp_all
  ultimately show ?thesis by simp
qed

lemma spec_sec_bounds: "- 9999 \<le> spec_sec v \<and> spec_sec v \<le> 9999"
proof (cases "0 \<le> spec_sec6 v")
  case True
  then have "spec_sec v = (spec_sec6 v mod 1000000) div 100"
    by (simp add: spec_sec_def smod_nonneg sdiv_nonneg)
  moreover have "0 \<le> (spec_sec6 v mod 1000000) div 100
      \<and> (spec_sec6 v mod 1000000) div 100 \<le> 999999 div 100"
    by (intro div_range) simp_all
  ultimately show ?thesis by simp
next
  case False
  have r: "0 \<le> (- spec_sec6 v) mod 1000000" "(- spec_sec6 v) mod 1000000 < 1000000" by simp_all
  from False have "spec_sec6 v smod 1000000 = - ((- spec_sec6 v) mod 1000000)"
    by (simp add: smod_neg)
  then have "spec_sec v = (- ((- spec_sec6 v) mod 1000000)) sdiv 100"
    by (simp add: spec_sec_def)
  also have "\<dots> = - (((- spec_sec6 v) mod 1000000) sdiv 100)"
    by (rule sdiv_minus)
  also have "\<dots> = - (((- spec_sec6 v) mod 1000000) div 100)"
    using r by (simp add: sdiv_nonneg)
  finally have "spec_sec v = - (((- spec_sec6 v) mod 1000000) div 100)" .
  moreover have "0 \<le> ((- spec_sec6 v) mod 1000000) div 100
      \<and> ((- spec_sec6 v) mod 1000000) div 100 \<le> 999999 div 100"
    by (intro div_range) simp_all
  ultimately show ?thesis by simp
qed

lemma spec_nonneg:
  assumes "0 \<le> v" "v < 2147483648"
  shows "0 \<le> spec_degMin v \<and> spec_degMin v < 65536 \<and> 0 \<le> spec_sec v \<and> spec_sec v < 65536"
proof -
  have d: "spec_deg v = v div 10000000" using assms by (simp add: spec_deg_def sdiv_nonneg)
  have s6: "0 \<le> spec_sec6 v" using spec_sec6_sign assms by simp
  then have m: "spec_min v = spec_sec6 v div 1000000" by (simp add: spec_min_def sdiv_nonneg)
  have s: "spec_sec v = (spec_sec6 v mod 1000000) div 100"
    using s6 by (simp add: spec_sec_def smod_nonneg sdiv_nonneg)
  have "0 \<le> v div 10000000" using assms by (simp add: pos_imp_zdiv_nonneg_iff)
  then have "0 \<le> spec_deg v" "spec_deg v \<le> 214"
    using d assms spec_deg_bounds [of v] by simp_all
  moreover have "0 \<le> spec_sec6 v div 1000000" using s6 by (simp add: pos_imp_zdiv_nonneg_iff)
  then have "0 \<le> spec_min v" "spec_min v \<le> 59"
    using m spec_min_bounds [of v] by simp_all
  moreover have "0 \<le> (spec_sec6 v mod 1000000) div 100" by (simp add: pos_imp_zdiv_nonneg_iff)
  then have "0 \<le> spec_sec v" using s by simp
  moreover have "spec_sec v \<le> 9999" using spec_sec_bounds by simp
  ultimately show ?thesis by (simp add: spec_degMin_def)
qed

lemma coord_deg: "sint (word_of_int (sint (x::u32) sdiv 10000000) :: 16 word) = spec_deg (sint x)"
  unfolding spec_deg_def [symmetric]
  using spec_deg_bounds [of "sint x"] sint_u32_range [of x]
  by (intro sint_of_int_range) simp_all

lemma coord_sec6:
  "sint (word_of_int ((sint (x::u32) - spec_deg (sint x) * 10000000) * 6) :: 32 word) = spec_sec6 (sint x)"
  unfolding spec_sec6_def [symmetric]
  using spec_sec6_bounds [of "sint x"]
  by (intro sint_of_int_range) simp_all

lemma coord_min: "sint (word_of_int (spec_sec6 v sdiv 1000000) :: 8 word) = spec_min v"
  unfolding spec_min_def [symmetric]
  using spec_min_bounds [of v]
  by (intro sint_of_int_range) simp_all

lemma addGPSCoordinates_fields:
  "addGPSCoordinates m lat lon =
     m\<lparr>pos_NS := of_bool (sint lat < 0),
       pos_NS_dm_L := ucast (word_of_int (spec_degMin (sint lat)) :: u16),
       pos_NS_dm_H := ucast (drop_bit 8 (word_of_int (spec_degMin (sint lat)) :: u16)),
       pos_NS_sec_L := ucast (word_of_int (spec_sec (sint lat)) :: u32),
       pos_NS_sec_H := ucast (signed_drop_bit 8 (word_of_int (spec_sec (sint lat)) :: u32)),
       pos_EW := of_bool (sint lon < 0),
       pos_EW_dm_L := ucast (word_of_int (spec_degMin (sint lon)) :: u16),
       pos_EW_dm_H := ucast (drop_bit 8 (word_of_int (spec_degMin (sint lon)) :: u16)),
       pos_EW_sec_L := ucast (word_of_int (spec_sec (sint lon)) :: u32),
       pos_EW_sec_H := ucast (signed_drop_bit 8 (word_of_int (spec_sec (sint lon)) :: u32))\<rparr>"
  unfolding addGPSCoordinates_def Let_def coord_deg coord_sec6 coord_min
  unfolding spec_degMin_def spec_sec_def
  by simp

section \<open>Frame codec: coordinates, ground speed, refresh without a fix\<close>

text \<open>
  C5, as amended. For every signed 32-bit latitude and longitude, the degree-minute pair and the
  seconds*100 pair written by \<^verbatim>\<open>addGPSCoordinates\<close> are the little-endian 16-bit two's
  complement of \<open>degMin\<close> and \<open>sec\<close> of the specification's formula (division and remainder
  truncating towards zero), and the hemisphere flag is 1 exactly when the value is negative.
  For a value that is not negative the two pairs are \<open>degMin\<close> and \<open>sec\<close> themselves; for a
  negative value \<open>degMin\<close> and \<open>sec\<close> are negative or zero, and the sign is in the packed
  pairs as well as in the flag.
\<close>

theorem addGPSCoordinates_formula:
  "le16 (pos_NS_dm_L (addGPSCoordinates m lat lon)) (pos_NS_dm_H (addGPSCoordinates m lat lon))
     = spec_degMin (sint lat) mod 65536 \<and>
   le16 (pos_NS_sec_L (addGPSCoordinates m lat lon)) (pos_NS_sec_H (addGPSCoordinates m lat lon))
     = spec_sec (sint lat) mod 65536 \<and>
   pos_NS (addGPSCoordinates m lat lon) = (if sint lat < 0 then 1 else 0) \<and>
   (0 \<le> sint lat \<longrightarrow>
      le16 (pos_NS_dm_L (addGPSCoordinates m lat lon)) (pos_NS_dm_H (addGPSCoordinates m lat lon))
        = spec_degMin (sint lat) \<and>
      le16 (pos_NS_sec_L (addGPSCoordinates m lat lon)) (pos_NS_sec_H (addGPSCoordinates m lat lon))
        = spec_sec (sint lat)) \<and>
   le16 (pos_EW_dm_L (addGPSCoordinates m lat lon)) (pos_EW_dm_H (addGPSCoordinates m lat lon))
     = spec_degMin (sint lon) mod 65536 \<and>
   le16 (pos_EW_sec_L (addGPSCoordinates m lat lon)) (pos_EW_sec_H (addGPSCoordinates m lat lon))
     = spec_sec (sint lon) mod 65536 \<and>
   pos_EW (addGPSCoordinates m lat lon) = (if sint lon < 0 then 1 else 0) \<and>
   (0 \<le> sint lon \<longrightarrow>
      le16 (pos_EW_dm_L (addGPSCoordinates m lat lon)) (pos_EW_dm_H (addGPSCoordinates m lat lon))
        = spec_degMin (sint lon) \<and>
      le16 (pos_EW_sec_L (addGPSCoordinates m lat lon)) (pos_EW_sec_H (addGPSCoordinates m lat lon))
        = spec_sec (sint lon))"
proof -
  have ns_dm: "le16 (pos_NS_dm_L (addGPSCoordinates m lat lon)) (pos_NS_dm_H (addGPSCoordinates m lat lon))
     = spec_degMin (sint lat) mod 65536"
    unfolding addGPSCoordinates_fields le16_def by (simp add: pair16_of_int)
  have ns_sec: "le16 (pos_NS_sec_L (addGPSCoordinates m lat lon)) (pos_NS_sec_H (addGPSCoordinates m lat lon))
     = spec_sec (sint lat) mod 65536"
    unfolding addGPSCoordinates_fields le16_def by (simp add: pair32_of_int)
  have ns: "pos_NS (addGPSCoordinates m lat lon) = (if sint lat < 0 then 1 else 0)"
    unfolding addGPSCoordinates_fields by simp
  have ew_dm: "le16 (pos_EW_dm_L (addGPSCoordinates m lat lon)) (pos_EW_dm_H (addGPSCoordinates m lat lon))
     = spec_degMin (sint lon) mod 65536"
    unfolding addGPSCoordinates_fields le16_def by (simp add: pair16_of_int)
  have ew_sec: "le16 (pos_EW_sec_L (addGPSCoordinates m lat lon)) (pos_EW_sec_H (addGPSCoordinates m lat lon))
     = spec_sec (sint lon) mod 65536"
    unfolding addGPSCoordinates_fields le16_def by (simp add: pair32_of_int)
  have ew: "pos_EW (addGPSCoordinates m lat lon) = (if sint lon < 0 then 1 else 0)"
    unfolding addGPSCoordinates_fields by simp
  have pos: "0 \<le> sint x \<Longrightarrow>
      spec_degMin (sint x) mod 65536 = spec_degMin (sint x) \<and>
      spec_sec (sint x) mod 65536 = spec_sec (sint x)" for x :: u32
    using spec_nonneg [of "sint x"] sint_u32_range [of x] by simp
  show ?thesis
    using ns_dm ns_sec ns ew_dm ew_sec ew pos [of lat] pos [of lon] by presburger
qed

theorem addGPSCoordinates_formula_witness:
  "0 \<le> sint (123456789 :: u32) \<and> 0 \<le> sint (987654321 :: u32) \<and>
   le16 (pos_NS_dm_L (addGPSCoordinates (initialiseGPSMessage hott_h) 123456789 987654321))
        (pos_NS_dm_H (addGPSCoordinates (initialiseGPSMessage hott_h) 123456789 987654321)) = 1220 \<and>
   le16 (pos_NS_sec_L (addGPSCoordinates (initialiseGPSMessage hott_h) 123456789 987654321))
        (pos_NS_sec_H (addGPSCoordinates (initialiseGPSMessage hott_h) 123456789 987654321)) = 7407 \<and>
   le16 (pos_EW_dm_L (addGPSCoordinates (initialiseGPSMessage hott_h) 123456789 987654321))
        (pos_EW_dm_H (addGPSCoordinates (initialiseGPSMessage hott_h) 123456789 987654321)) = 9845 \<and>
   le16 (pos_EW_sec_L (addGPSCoordinates (initialiseGPSMessage hott_h) 123456789 987654321))
        (pos_EW_sec_H (addGPSCoordinates (initialiseGPSMessage hott_h) 123456789 987654321)) = 9259"
proof -
  have a: "0 \<le> sint (123456789 :: u32)" "0 \<le> sint (987654321 :: u32)" by simp_all
  have b: "sint (123456789 :: u32) = 123456789" "sint (987654321 :: u32) = 987654321" by simp_all
  have c: "spec_degMin 123456789 = 1220" "spec_sec 123456789 = 7407"
          "spec_degMin 987654321 = 9845" "spec_sec 987654321 = 9259"
    by (simp_all add: spec_degMin_def spec_sec_def spec_min_def spec_sec6_def spec_deg_def
          sdiv_nonneg smod_nonneg)
  show ?thesis
    using addGPSCoordinates_formula [of "initialiseGPSMessage hott_h" 123456789 987654321] a
    unfolding b c by simp
qed

text \<open>
  C5 as it is written fails for a negative coordinate: at -12.3456789 degrees the packed
  degree-minute pair is 0xFB3C, the two's complement of -1220, and not the 0x04C4 = 1220 that
  +12.3456789 degrees packs; the sign is not carried by the flag alone.
\<close>

theorem addGPSCoordinates_negative_packed:
  "pos_NS (addGPSCoordinates (initialiseGPSMessage hott_h) (- 123456789) 0) = 1 \<and>
   pos_NS_dm_L (addGPSCoordinates (initialiseGPSMessage hott_h) (- 123456789) 0) = 0x3C \<and>
   pos_NS_dm_H (addGPSCoordinates (initialiseGPSMessage hott_h) (- 123456789) 0) = 0xFB \<and>
   pos_NS_dm_L (addGPSCoordinates (initialiseGPSMessage hott_h) 123456789 0) = 0xC4 \<and>
   pos_NS_dm_H (addGPSCoordinates (initialiseGPSMessage hott_h) 123456789 0) = 0x04 \<and>
   pos_NS_dm_H (addGPSCoordinates (initialiseGPSMessage hott_h) (- 123456789) 0)
     \<noteq> pos_NS_dm_H (addGPSCoordinates (initialiseGPSMessage hott_h) 123456789 0)"
  by code_simp

lemma hottPrepareGPSResponse_speed:
  "GPS_FIX v \<Longrightarrow>
   gps_speed_L (hottPrepareGPSResponse d v m)
     = ucast ((word_of_int ((uint (GPS_speed v) div 100) * 36) :: u16) AND 0x00FF) \<and>
   gps_speed_H (hottPrepareGPSResponse d v m)
     = ucast (drop_bit 8 (word_of_int ((uint (GPS_speed v) div 100) * 36) :: u16))"
  by (simp add: hottPrepareGPSResponse_def Let_def)

lemma speed_range: "0 \<le> (uint (w::u16) div 100) * 36 \<and> (uint w div 100) * 36 < 65536"
proof -
  have "uint w \<le> 65535" using uint_lt2p [of w] by simp
  then have "0 \<le> uint w div 100 \<and> uint w div 100 \<le> 65535 div 100"
    by (intro div_range) simp_all
  then show ?thesis by simp
qed

text \<open>
  C9, as amended. With a fix, the ground speed bytes are the little-endian 16-bit pair of
  \<open>(GPS_speed / 100) * 36\<close>; a speed of 250 gives 72, the bytes 72 and 0. Without a fix
  \<^verbatim>\<open>hottPrepareGPSResponse\<close> returns before it encodes the speed, and the speed bytes are
  as they were before the refresh.
\<close>

theorem ground_speed_encoding:
  "(GPS_FIX v \<longrightarrow>
      le16 (gps_speed_L (hottPrepareGPSResponse d v m)) (gps_speed_H (hottPrepareGPSResponse d v m))
        = (uint (GPS_speed v) div 100) * 36 \<and>
      (GPS_speed v = 250 \<longrightarrow>
         gps_speed_L (hottPrepareGPSResponse d v m) = 72 \<and>
         gps_speed_H (hottPrepareGPSResponse d v m) = 0)) \<and>
   (\<not> GPS_FIX v \<longrightarrow>
      gps_speed_L (hottPrepareGPSResponse d v m) = gps_speed_L m \<and>
      gps_speed_H (hottPrepareGPSResponse d v m) = gps_speed_H m)"
proof (intro conjI impI)
  assume gfix: "GPS_FIX v"
  let ?k = "(uint (GPS_speed v) div 100) * 36"
  have "le16 (gps_speed_L (hottPrepareGPSResponse d v m)) (gps_speed_H (hottPrepareGPSResponse d v m))
        = ?k mod 65536"
    using hottPrepareGPSResponse_speed [OF gfix, of d m]
    by (simp only: le16_def mask_ff_u16 pair16_of_int)
  moreover have "?k mod 65536 = ?k" using speed_range [of "GPS_speed v"] by simp
  ultimately show "le16 (gps_speed_L (hottPrepareGPSResponse d v m))
        (gps_speed_H (hottPrepareGPSResponse d v m)) = ?k"
    by simp
next
  assume gfix: "GPS_FIX v" and s: "GPS_speed v = 250"
  from hottPrepareGPSResponse_speed [OF gfix, of d m] s
  show "gps_speed_L (hottPrepareGPSResponse d v m) = 72" by simp
next
  assume gfix: "GPS_FIX v" and s: "GPS_speed v = 250"
  from hottPrepareGPSResponse_speed [OF gfix, of d m] s
  show "gps_speed_H (hottPrepareGPSResponse d v m) = 0" by simp
next
  assume "\<not> GPS_FIX v"
  then show "gps_speed_L (hottPrepareGPSResponse d v m) = gps_speed_L m"
    by (simp add: hottPrepareGPSResponse_def)
next
  assume "\<not> GPS_FIX v"
  then show "gps_speed_H (hottPrepareGPSResponse d v m) = gps_speed_H m"
    by (simp add: hottPrepareGPSResponse_def)
qed

text \<open>
  With a fix a speed of 250 is encoded as 72, 0; when the fix is then lost and the speed is 100,
  the next refresh leaves the bytes 72, 0.
\<close>

theorem ground_speed_encoding_witness:
  "GPS_FIX v0 \<and> GPS_speed v0 = 250 \<and>
   le16 (gps_speed_L (hottPrepareGPSResponse hott_h v0 (initialiseGPSMessage hott_h)))
        (gps_speed_H (hottPrepareGPSResponse hott_h v0 (initialiseGPSMessage hott_h))) = 72 \<and>
   gps_speed_L (hottPrepareGPSResponse hott_h v0 (initialiseGPSMessage hott_h)) = 72 \<and>
   gps_speed_H (hottPrepareGPSResponse hott_h v0 (initialiseGPSMessage hott_h)) = 0 \<and>
   \<not> GPS_FIX (v0\<lparr>GPS_FIX := False, GPS_speed := 100\<rparr>) \<and>
   gps_speed_L (hottPrepareGPSResponse hott_h (v0\<lparr>GPS_FIX := False, GPS_speed := 100\<rparr>)
      (hottPrepareGPSResponse hott_h v0 (initialiseGPSMessage hott_h))) = 72 \<and>
   gps_speed_H (hottPrepareGPSResponse hott_h (v0\<lparr>GPS_FIX := False, GPS_speed := 100\<rparr>)
      (hottPrepareGPSResponse hott_h v0 (initialiseGPSMessage hott_h))) = 0"
proof -
  have h: "GPS_FIX v0" by (simp add: v0_def)
  have s: "GPS_speed v0 = 250" by (simp add: v0_def)
  have n: "\<not> GPS_FIX (v0\<lparr>GPS_FIX := False, GPS_speed := 100\<rparr>)" by simp
  from ground_speed_encoding [of v0 hott_h "initialiseGPSMessage hott_h"] h s
  have "gps_speed_L (hottPrepareGPSResponse hott_h v0 (initialiseGPSMessage hott_h)) = 72 \<and>
    gps_speed_H (hottPrepareGPSResponse hott_h v0 (initialiseGPSMessage hott_h)) = 0"
    by blast
  then have a: "le16 (gps_speed_L (hottPrepareGPSResponse hott_h v0 (initialiseGPSMessage hott_h)))
        (gps_speed_H (hottPrepareGPSResponse hott_h v0 (initialiseGPSMessage hott_h))) = 72"
    "gps_speed_L (hottPrepareGPSResponse hott_h v0 (initialiseGPSMessage hott_h)) = 72"
    "gps_speed_H (hottPrepareGPSResponse hott_h v0 (initialiseGPSMessage hott_h)) = 0"
    by (simp_all add: le16_def)
  from ground_speed_encoding [of "v0\<lparr>GPS_FIX := False, GPS_speed := 100\<rparr>" hott_h
      "hottPrepareGPSResponse hott_h v0 (initialiseGPSMessage hott_h)"] n a(2,3)
  have "gps_speed_L (hottPrepareGPSResponse hott_h (v0\<lparr>GPS_FIX := False, GPS_speed := 100\<rparr>)
      (hottPrepareGPSResponse hott_h v0 (initialiseGPSMessage hott_h)))
        = gps_speed_L (hottPrepareGPSResponse hott_h v0 (initialiseGPSMessage hott_h)) \<and>
    gps_speed_H (hottPrepareGPSResponse hott_h (v0\<lparr>GPS_FIX := False, GPS_speed := 100\<rparr>)
      (hottPrepareGPSResponse hott_h v0 (initialiseGPSMessage hott_h)))
        = gps_speed_H (hottPrepareGPSResponse hott_h v0 (initialiseGPSMessage hott_h))"
    by blast
  with a(2,3) have b: "gps_speed_L (hottPrepareGPSResponse hott_h (v0\<lparr>GPS_FIX := False, GPS_speed := 100\<rparr>)
      (hottPrepareGPSResponse hott_h v0 (initialiseGPSMessage hott_h))) = 72"
    "gps_speed_H (hottPrepareGPSResponse hott_h (v0\<lparr>GPS_FIX := False, GPS_speed := 100\<rparr>)
      (hottPrepareGPSResponse hott_h v0 (initialiseGPSMessage hott_h))) = 0"
    by simp_all
  show ?thesis using h s n a b by simp
qed

text \<open>
  C9 as it is written fails without a fix: at a speed of 250 the refresh of a fresh frame leaves
  the speed bytes 0 and 0, not 72 and 0.
\<close>

theorem ground_speed_without_fix:
  "\<not> GPS_FIX (v0\<lparr>GPS_FIX := False\<rparr>) \<and> GPS_speed (v0\<lparr>GPS_FIX := False\<rparr>) = 250 \<and>
   gps_speed_L (hottPrepareGPSResponse hott_h (v0\<lparr>GPS_FIX := False\<rparr>) (initialiseGPSMessage hott_h)) = 0 \<and>
   gps_speed_H (hottPrepareGPSResponse hott_h (v0\<lparr>GPS_FIX := False\<rparr>) (initialiseGPSMessage hott_h)) = 0 \<and>
   gps_speed_L (hottPrepareGPSResponse hott_h (v0\<lparr>GPS_FIX := False\<rparr>) (initialiseGPSMessage hott_h))
     \<noteq> 72"
  by (simp add: v0_def hottPrepareGPSResponse_def initialiseGPSMessage_def)

text \<open>
  C10. Without a fix, a refresh of the GPS frame writes the satellite count and the fix
  character \<open>-\<close> (0x2D) and returns: every other field of the frame, and so the coordinate,
  speed, home distance, altitude and home direction bytes, is as it was before the refresh.
\<close>

theorem hottPrepareGPSResponse_without_fix:
  "\<not> GPS_FIX v \<Longrightarrow>
   hottPrepareGPSResponse d v m
     = m\<lparr>gps_satelites := GPS_numSat v, gps_fix_char := GPS_FIX_CHAR_NONE\<rparr> \<and>
   GPS_FIX_CHAR_NONE = 0x2D \<and>
   pos_NS (hottPrepareGPSResponse d v m) = pos_NS m \<and>
   pos_NS_dm_L (hottPrepareGPSResponse d v m) = pos_NS_dm_L m \<and>
   pos_NS_dm_H (hottPrepareGPSResponse d v m) = pos_NS_dm_H m \<and>
   pos_NS_sec_L (hottPrepareGPSResponse d v m) = pos_NS_sec_L m \<and>
   pos_NS_sec_H (hottPrepareGPSResponse d v m) = pos_NS_sec_H m \<and>
   pos_EW (hottPrepareGPSResponse d v m) = pos_EW m \<and>
   pos_EW_dm_L (hottPrepareGPSResponse d v m) = pos_EW_dm_L m \<and>
   pos_EW_dm_H (hottPrepareGPSResponse d v m) = pos_EW_dm_H m \<and>
   pos_EW_sec_L (hottPrepareGPSResponse d v m) = pos_EW_sec_L m \<and>
   pos_EW_sec_H (hottPrepareGPSResponse d v m) = pos_EW_sec_H m \<and>
   gps_speed_L (hottPrepareGPSResponse d v m) = gps_speed_L m \<and>
   gps_speed_H (hottPrepareGPSResponse d v m) = gps_speed_H m \<and>
   home_distance_L (hottPrepareGPSResponse d v m) = home_distance_L m \<and>
   home_distance_H (hottPrepareGPSResponse d v m) = home_distance_H m \<and>
   altitude_L (hottPrepareGPSResponse d v m) = altitude_L m \<and>
   altitude_H (hottPrepareGPSResponse d v m) = altitude_H m \<and>
   home_direction (hottPrepareGPSResponse d v m) = home_direction m"
  by (simp add: hottPrepareGPSResponse_def GPS_FIX_CHAR_NONE_def)

text \<open>
  A frame composed with a fix and then refreshed after the fix is lost keeps the speed bytes
  72 and 0 of the earlier refresh.
\<close>

theorem hottPrepareGPSResponse_without_fix_witness:
  "\<not> GPS_FIX (v0\<lparr>GPS_FIX := False, GPS_numSat := 2, GPS_speed := 0\<rparr>) \<and>
   gps_speed_L (hottPrepareGPSResponse hott_h (v0\<lparr>GPS_FIX := False, GPS_numSat := 2, GPS_speed := 0\<rparr>)
      (hottPrepareGPSResponse hott_h v0 (initialiseGPSMessage hott_h))) = 72 \<and>
   gps_satelites (hottPrepareGPSResponse hott_h (v0\<lparr>GPS_FIX := False, GPS_numSat := 2, GPS_speed := 0\<rparr>)
      (hottPrepareGPSResponse hott_h v0 (initialiseGPSMessage hott_h))) = 2 \<and>
   gps_fix_char (hottPrepareGPSResponse hott_h (v0\<lparr>GPS_FIX := False, GPS_numSat := 2, GPS_speed := 0\<rparr>)
      (hottPrepareGPSResponse hott_h v0 (initialiseGPSMessage hott_h))) = 0x2D"
proof -
  have h: "\<not> GPS_FIX (v0\<lparr>GPS_FIX := False, GPS_numSat := 2, GPS_speed := 0\<rparr>)" by simp
  have g: "GPS_FIX v0" "GPS_speed v0 = 250" by (simp_all add: v0_def)
  have s: "gps_speed_L (hottPrepareGPSResponse hott_h v0 (initialiseGPSMessage hott_h)) = 72"
    using hottPrepareGPSResponse_speed [OF g(1), of hott_h "initialiseGPSMessage hott_h"] g(2)
    by simp
  show ?thesis
    using hottPrepareGPSResponse_without_fix [OF h, of hott_h
        "hottPrepareGPSResponse hott_h v0 (initialiseGPSMessage hott_h)"] h s
    by simp
qed

lemma hottPrepareGPSResponse_header:
  "start_byte (hottPrepareGPSResponse d v m) = start_byte m"
  "stop_byte (hottPrepareGPSResponse d v m) = stop_byte m"
  "gps_satelites (hottPrepareGPSResponse d v m) = GPS_numSat v"
  "gps_fix_char (hottPrepareGPSResponse d v m)
     = (if \<not> GPS_FIX v then GPS_FIX_CHAR_NONE
        else if GPS_numSat v \<ge> 5 then GPS_FIX_CHAR_3D else GPS_FIX_CHAR_2D)"
  by (simp_all add: hottPrepareGPSResponse_def Let_def addGPSCoordinates_fields)

section \<open>Request detector\<close>

text \<open>The flush loop ends with an empty queue and touches nothing else.\<close>

lemma flushHottRxBuffer_eq: "flushHottRxBuffer p = p\<lparr>rxq := []\<rparr>"
proof (induction p rule: flushHottRxBuffer.induct)
  case (1 p)
  show ?case
  proof (cases "rxq p")
    case Nil
    then show ?thesis
      by (simp add: flushHottRxBuffer.simps [of p] serialTotalBytesWaiting_def)
  next
    case (Cons b bs)
    then have "flushHottRxBuffer p = flushHottRxBuffer (snd (serialRead p))"
      by (simp add: flushHottRxBuffer.simps [of p] serialTotalBytesWaiting_def)
    also have "\<dots> = (snd (serialRead p))\<lparr>rxq := []\<rparr>"
      using Cons by (intro "1.IH") (simp add: serialTotalBytesWaiting_def)
    also have "\<dots> = p\<lparr>rxq := []\<rparr>"
      using Cons by (simp add: serialRead_def)
    finally show ?thesis .
  qed
qed

text \<open>The 8-bit count is the number of waiting bytes as long as that is below 256.\<close>

lemma bytesWaiting_length:
  "length (rxq (hottPort s)) < 256 \<Longrightarrow> unat (bytesWaiting s) = length (rxq (hottPort s))"
  by (simp add: bytesWaiting_def serialTotalBytesWaiting_def unat_of_nat)

lemma bytesWaiting_two: "serialTotalBytesWaiting (hottPort s) = 2 \<Longrightarrow> bytesWaiting s = 2"
  by (simp add: bytesWaiting_def)

lemma bytesWaiting_two_queue:
  assumes "bytesWaiting s = 2"
  shows "\<exists>a b rest. rxq (hottPort s) = a # b # rest"
proof (cases "rxq (hottPort s)")
  case Nil
  with assms show ?thesis by (simp add: bytesWaiting_def serialTotalBytesWaiting_def)
next
  case (Cons a as)
  show ?thesis
  proof (cases as)
    case Nil
    with Cons assms show ?thesis by (simp add: bytesWaiting_def serialTotalBytesWaiting_def)
  next
    case (Cons b rest)
    with \<open>rxq (hottPort s) = a # as\<close> show ?thesis by simp
  qed
qed

lemma hottCheckSerialData_le1: "bytesWaiting s \<le> 1 \<Longrightarrow> hottCheckSerialData d v now s = s"
  by (simp add: hottCheckSerialData_def)

lemma hottCheckSerialData_gt2:
  "2 < bytesWaiting s \<Longrightarrow>
   hottCheckSerialData d v now s
     = s\<lparr>hottPort := (hottPort s)\<lparr>rxq := []\<rparr>, lookingForRequest := True\<rparr>"
proof -
  assume a: "2 < bytesWaiting s"
  then have "\<not> bytesWaiting s \<le> 1" "bytesWaiting s \<noteq> 2"
    by (auto simp: word_less_def word_le_def)
  then show ?thesis
    by (simp add: hottCheckSerialData_def flushHottRxBuffer_eq)
qed

lemma processBinaryModeRequest_keeps:
  "hottPort (processBinaryModeRequest d v a s) = hottPort s"
  "lookingForRequest (processBinaryModeRequest d v a s) = lookingForRequest s"
  "lastHoTTRequestCheckAt (processBinaryModeRequest d v a s) = lastHoTTRequestCheckAt s"
  by (simp_all add: processBinaryModeRequest_def hottSendGPSResponse_def hottSendEAMResponse_def
        hottSendResponse_def)

lemma processBinaryModeRequest_frames:
  "hottGPSMessage (processBinaryModeRequest d v a s) = hottGPSMessage s"
  "hottEAMMessage (processBinaryModeRequest d v a s) = hottEAMMessage s"
  "lastMessagesPreparedAt (processBinaryModeRequest d v a s) = lastMessagesPreparedAt s"
  by (simp_all add: processBinaryModeRequest_def hottSendGPSResponse_def hottSendEAMResponse_def
        hottSendResponse_def)

lemma processBinaryModeRequest_idle:
  "\<not> hottIsSending s \<Longrightarrow>
   processBinaryModeRequest d v a s = s \<or>
   (\<exists>b. processBinaryModeRequest d v a s
          = s\<lparr>hottMsg := Some (b, 0),
              hottMsgRemainingBytesToSendCount := word_of_int (int (frame_size d b) + 1)\<rparr>)"
proof -
  assume idle: "\<not> hottIsSending s"
  have g: "hottSendGPSResponse d s = s\<lparr>hottMsg := Some (GPS_BUFFER, 0),
              hottMsgRemainingBytesToSendCount := word_of_int (int (frame_size d GPS_BUFFER) + 1)\<rparr>"
    using idle by (simp add: hottSendGPSResponse_def hottSendResponse_def frame_size_def HOTT_CRC_SIZE_def)
  have e: "hottSendEAMResponse d s = s\<lparr>hottMsg := Some (EAM_BUFFER, 0),
              hottMsgRemainingBytesToSendCount := word_of_int (int (frame_size d EAM_BUFFER) + 1)\<rparr>"
    using idle by (simp add: hottSendEAMResponse_def hottSendResponse_def frame_size_def HOTT_CRC_SIZE_def)
  show ?thesis
    unfolding processBinaryModeRequest_def using g e by auto
qed

lemma hottCheckSerialData_arm:
  "bytesWaiting s = 2 \<Longrightarrow> lookingForRequest s \<Longrightarrow>
   hottCheckSerialData d v now s = s\<lparr>lastHoTTRequestCheckAt := now, lookingForRequest := False\<rparr>"
  by (simp add: hottCheckSerialData_def u8_two_le_one)

lemma hottCheckSerialData_wait:
  "bytesWaiting s = 2 \<Longrightarrow> \<not> lookingForRequest s \<Longrightarrow>
   now - lastHoTTRequestCheckAt s < HOTT_RX_SCHEDULE \<Longrightarrow>
   hottCheckSerialData d v now s = s"
  by (simp add: hottCheckSerialData_def u8_two_le_one not_le)

lemma hottCheckSerialData_consume:
  "bytesWaiting s = 2 \<Longrightarrow> \<not> lookingForRequest s \<Longrightarrow>
   HOTT_RX_SCHEDULE \<le> now - lastHoTTRequestCheckAt s \<Longrightarrow>
   rxq (hottPort s) = requestId # address # rest \<Longrightarrow>
   hottCheckSerialData d v now s =
     (if requestId = HOTT_BINARY_MODE_REQUEST_ID d
      then processBinaryModeRequest d v address
             (s\<lparr>lookingForRequest := True, hottPort := (hottPort s)\<lparr>rxq := rest\<rparr>\<rparr>)
      else s\<lparr>lookingForRequest := True, hottPort := (hottPort s)\<lparr>rxq := rest\<rparr>\<rparr>)"
  by (simp add: hottCheckSerialData_def serialRead_def Let_def u8_two_le_one)

lemma hottCheckSerialData_frames:
  "hottGPSMessage (hottCheckSerialData d v now s) = hottGPSMessage s"
  "hottEAMMessage (hottCheckSerialData d v now s) = hottEAMMessage s"
  "lastMessagesPreparedAt (hottCheckSerialData d v now s) = lastMessagesPreparedAt s"
  by (simp_all add: hottCheckSerialData_def Let_def processBinaryModeRequest_frames
        split: prod.splits)

lemma hottCheckSerialData_idle:
  assumes idle: "\<not> hottIsSending s"
  shows "scheduled d s (hottCheckSerialData d v now s)"
proof -
  from u8_count_cases [of "bytesWaiting s"]
  consider "bytesWaiting s \<le> 1" | "2 < bytesWaiting s" | "bytesWaiting s = 2" by blast
  then show ?thesis
  proof cases
    case 1
    then show ?thesis using idle by (simp add: hottCheckSerialData_le1 scheduled_def)
  next
    case 2
    then show ?thesis using idle by (simp add: hottCheckSerialData_gt2 scheduled_def)
  next
    case 3
    show ?thesis
    proof (cases "lookingForRequest s")
      case True
      then show ?thesis using idle 3 by (simp add: hottCheckSerialData_arm scheduled_def)
    next
      case False
      show ?thesis
      proof (cases "now - lastHoTTRequestCheckAt s < HOTT_RX_SCHEDULE")
        case True
        then show ?thesis
          using idle 3 False by (simp add: hottCheckSerialData_wait scheduled_def)
      next
        case late: False
        then have t: "HOTT_RX_SCHEDULE \<le> now - lastHoTTRequestCheckAt s" by (simp add: not_less)
        from bytesWaiting_two_queue [OF 3] obtain a b rest
          where q: "rxq (hottPort s) = a # b # rest" by blast
        let ?s = "s\<lparr>lookingForRequest := True, hottPort := (hottPort s)\<lparr>rxq := rest\<rparr>\<rparr>"
        have i': "\<not> hottIsSending ?s" using idle by simp
        from processBinaryModeRequest_idle [OF i', of d v b]
        have "scheduled d s (processBinaryModeRequest d v b ?s)"
          using idle by (auto simp: scheduled_def)
        moreover have "scheduled d s ?s" using idle by (simp add: scheduled_def)
        ultimately show ?thesis
          unfolding hottCheckSerialData_consume [OF 3 False t q] by simp
      qed
    qed
  qed
qed

lemma armed_eq:
  "armed [a, b] = (initHoTTTelemetry hott_h)
     \<lparr>lastHoTTRequestCheckAt := 1000, lookingForRequest := False,
      hottPort := \<lparr>mode = MODE_RX, rxq = [a, b], txlog = []\<rparr>\<rparr>"
  by (simp add: armed_def tick_def tin_def receive_def initHoTTTelemetry_def
      handleHoTTTelemetry_def shouldPrepareHoTTMessages_def shouldCheckForHoTTRequest_def
      HOTT_MESSAGE_PREPARATION_FREQUENCY_5_HZ_def
      hottCheckSerialData_def bytesWaiting_def serialTotalBytesWaiting_def u8_two_le_one Let_def)

lemma armed_idle:
  "\<not> hottIsSending (armed [a, b])" "hottMsg (armed [a, b]) = None"
  "txlog (hottPort (armed [a, b])) = []"
  by (simp_all add: armed_eq initHoTTTelemetry_def)

text \<open>
  C4, as amended. \<open>bytesWaiting\<close> is the count as the detector holds it, in a
  \<^verbatim>\<open>uint8_t\<close>. When it is greater than 2 the detector discards every waiting byte and
  disarms the window (\<^verbatim>\<open>lookingForRequest = true\<close>), and nothing else changes. When it is
  0 or 1 the detector returns at once: no byte is discarded and the window is left as it is.
\<close>

theorem detector_noise:
  "(2 < bytesWaiting s \<longrightarrow>
      hottCheckSerialData d v now s
        = s\<lparr>hottPort := (hottPort s)\<lparr>rxq := []\<rparr>, lookingForRequest := True\<rparr>) \<and>
   (bytesWaiting s \<le> 1 \<longrightarrow> hottCheckSerialData d v now s = s)"
  using hottCheckSerialData_gt2 hottCheckSerialData_le1 by blast

theorem detector_noise_witness:
  "2 < bytesWaiting (receive [0x80, 0x8A, 0x7C] (initHoTTTelemetry hott_h)) \<and>
   rxq (hottPort (hottCheckSerialData hott_h v0 5000
          (receive [0x80, 0x8A, 0x7C] (initHoTTTelemetry hott_h)))) = [] \<and>
   lookingForRequest (hottCheckSerialData hott_h v0 5000
          (receive [0x80, 0x8A, 0x7C] (initHoTTTelemetry hott_h))) \<and>
   bytesWaiting (receive [0x80] (initHoTTTelemetry hott_h)) \<le> 1 \<and>
   hottCheckSerialData hott_h v0 5000 (receive [0x80] (initHoTTTelemetry hott_h))
     = receive [0x80] (initHoTTTelemetry hott_h)"
proof -
  have a: "2 < bytesWaiting (receive [0x80, 0x8A, 0x7C] (initHoTTTelemetry hott_h))"
    by (simp add: bytesWaiting_def serialTotalBytesWaiting_def receive_def initHoTTTelemetry_def)
  have b: "bytesWaiting (receive [0x80] (initHoTTTelemetry hott_h)) \<le> 1"
    by (simp add: bytesWaiting_def serialTotalBytesWaiting_def receive_def initHoTTTelemetry_def)
  show ?thesis
    using a b
      detector_noise [of "receive [0x80, 0x8A, 0x7C] (initHoTTTelemetry hott_h)" hott_h v0 5000]
      detector_noise [of "receive [0x80] (initHoTTTelemetry hott_h)" hott_h v0 5000]
    by simp
qed

text \<open>
  C4 as it is written fails for a count of 1: the single waiting byte is still in the queue after
  the detector has run.
\<close>

theorem detector_one_byte_kept:
  "bytesWaiting (receive [0x80] (initHoTTTelemetry hott_h)) = 1 \<and>
   rxq (hottPort (hottCheckSerialData hott_h v0 5000 (receive [0x80] (initHoTTTelemetry hott_h)))) = [0x80]"
  by (simp add: bytesWaiting_def serialTotalBytesWaiting_def receive_def initHoTTTelemetry_def
      hottCheckSerialData_def)

text \<open>
  C8. With exactly 2 bytes waiting: an unarmed detector records the time, arms the window and
  changes nothing else, so the bytes stay in the queue; an armed detector does nothing before
  4000 microseconds have passed since the recorded time (the unsigned 32-bit difference), and
  from then on it reads the two bytes and disarms the window, leaving the recorded time as it is.
  The queue changes only in that last case.
\<close>

theorem request_window:
  "serialTotalBytesWaiting (hottPort s) = 2 \<Longrightarrow>
   (lookingForRequest s \<longrightarrow>
      hottCheckSerialData d v now s
        = s\<lparr>lastHoTTRequestCheckAt := now, lookingForRequest := False\<rparr>) \<and>
   (\<not> lookingForRequest s \<and> now - lastHoTTRequestCheckAt s < 4000 \<longrightarrow>
      hottCheckSerialData d v now s = s) \<and>
   (\<not> lookingForRequest s \<and> 4000 \<le> now - lastHoTTRequestCheckAt s \<longrightarrow>
      rxq (hottPort (hottCheckSerialData d v now s)) = [] \<and>
      lookingForRequest (hottCheckSerialData d v now s) \<and>
      lastHoTTRequestCheckAt (hottCheckSerialData d v now s) = lastHoTTRequestCheckAt s) \<and>
   (rxq (hottPort (hottCheckSerialData d v now s)) \<noteq> rxq (hottPort s) \<longrightarrow>
      \<not> lookingForRequest s \<and> 4000 \<le> now - lastHoTTRequestCheckAt s)"
proof -
  assume n: "serialTotalBytesWaiting (hottPort s) = 2"
  then have two: "bytesWaiting s = 2" by (rule bytesWaiting_two)
  from n obtain a b where q: "rxq (hottPort s) = [a, b]"
    by (cases "rxq (hottPort s)"; cases "tl (rxq (hottPort s))")
       (auto simp: serialTotalBytesWaiting_def)
  have arm: "lookingForRequest s \<Longrightarrow>
      hottCheckSerialData d v now s
        = s\<lparr>lastHoTTRequestCheckAt := now, lookingForRequest := False\<rparr>"
    using two by (rule hottCheckSerialData_arm)
  have wait: "\<not> lookingForRequest s \<Longrightarrow> now - lastHoTTRequestCheckAt s < 4000 \<Longrightarrow>
      hottCheckSerialData d v now s = s"
    using two by (simp add: hottCheckSerialData_wait HOTT_RX_SCHEDULE_def)
  have consume: "rxq (hottPort (hottCheckSerialData d v now s)) = [] \<and>
      lookingForRequest (hottCheckSerialData d v now s) \<and>
      lastHoTTRequestCheckAt (hottCheckSerialData d v now s) = lastHoTTRequestCheckAt s"
    if "\<not> lookingForRequest s" "4000 \<le> now - lastHoTTRequestCheckAt s"
    using hottCheckSerialData_consume [OF two that(1) _ q, of now d v] that(2)
    by (simp add: HOTT_RX_SCHEDULE_def processBinaryModeRequest_keeps)
  have only: "\<not> lookingForRequest s \<and> 4000 \<le> now - lastHoTTRequestCheckAt s"
    if "rxq (hottPort (hottCheckSerialData d v now s)) \<noteq> rxq (hottPort s)"
  proof (rule ccontr)
    assume "\<not> (\<not> lookingForRequest s \<and> 4000 \<le> now - lastHoTTRequestCheckAt s)"
    then consider "lookingForRequest s"
      | "\<not> lookingForRequest s" "now - lastHoTTRequestCheckAt s < 4000"
      by (auto simp: not_le)
    then show False using that arm wait by cases simp_all
  qed
  show ?thesis using arm wait consume only by blast
qed

theorem request_window_witness:
  "serialTotalBytesWaiting (hottPort (receive [0x80, 0x8A] (initHoTTTelemetry hott_h))) = 2 \<and>
   lookingForRequest (receive [0x80, 0x8A] (initHoTTTelemetry hott_h)) \<and>
   rxq (hottPort (hottCheckSerialData hott_h v0 1000 (receive [0x80, 0x8A] (initHoTTTelemetry hott_h))))
     = [0x80, 0x8A] \<and>
   serialTotalBytesWaiting (hottPort (armed [0x80, 0x8A])) = 2 \<and>
   \<not> lookingForRequest (armed [0x80, 0x8A]) \<and>
   3000 - lastHoTTRequestCheckAt (armed [0x80, 0x8A]) < 4000 \<and>
   hottCheckSerialData hott_h v0 3000 (armed [0x80, 0x8A]) = armed [0x80, 0x8A] \<and>
   4000 \<le> 5000 - lastHoTTRequestCheckAt (armed [0x80, 0x8A]) \<and>
   rxq (hottPort (hottCheckSerialData hott_h v0 5000 (armed [0x80, 0x8A]))) = [] \<and>
   lookingForRequest (hottCheckSerialData hott_h v0 5000 (armed [0x80, 0x8A]))"
proof -
  have a: "serialTotalBytesWaiting (hottPort (receive [0x80, 0x8A] (initHoTTTelemetry hott_h))) = 2"
    "lookingForRequest (receive [0x80, 0x8A] (initHoTTTelemetry hott_h))"
    by (simp_all add: serialTotalBytesWaiting_def receive_def initHoTTTelemetry_def)
  have b: "serialTotalBytesWaiting (hottPort (armed [0x80, 0x8A])) = 2"
    "\<not> lookingForRequest (armed [0x80, 0x8A])"
    "3000 - lastHoTTRequestCheckAt (armed [0x80, 0x8A]) < 4000"
    "4000 \<le> 5000 - lastHoTTRequestCheckAt (armed [0x80, 0x8A])"
    by (simp_all add: armed_eq serialTotalBytesWaiting_def word_le_def word_less_def)
  have c: "rxq (hottPort (hottCheckSerialData hott_h v0 1000
              (receive [0x80, 0x8A] (initHoTTTelemetry hott_h)))) = [0x80, 0x8A]"
    using request_window [where d = hott_h and v = v0 and now = 1000, OF a(1)] a(2)
    by (simp add: receive_def initHoTTTelemetry_def)
  have d: "hottCheckSerialData hott_h v0 3000 (armed [0x80, 0x8A]) = armed [0x80, 0x8A]"
    using request_window [where d = hott_h and v = v0 and now = 3000, OF b(1)] b(2) b(3)
    by blast
  have e: "rxq (hottPort (hottCheckSerialData hott_h v0 5000 (armed [0x80, 0x8A]))) = [] \<and>
    lookingForRequest (hottCheckSerialData hott_h v0 5000 (armed [0x80, 0x8A]))"
    using request_window [where d = hott_h and v = v0 and now = 5000, OF b(1)] b(2) b(4)
    by blast
  show ?thesis using a b c d e by blast
qed

text \<open>
  C3, as amended. When the detector consumes a request of two bytes with no send in progress:
  with the binary-mode request id and the address 0x8A it makes the GPS frame the pending
  message, with the count \<^verbatim>\<open>sizeof + 1\<close>, if \<^verbatim>\<open>sensors(SENSOR_GPS)\<close> holds, and no frame
  if it does not; with the binary-mode request id and the address 0x8E it makes the EAM frame
  the pending message; with any other address, or another request id, the pending message is
  left as it is. In each case the two bytes are gone and the window is disarmed.
\<close>

theorem request_dispatch:
  "rxq (hottPort s) = [requestId, address] \<Longrightarrow> \<not> lookingForRequest s \<Longrightarrow>
   4000 \<le> now - lastHoTTRequestCheckAt s \<Longrightarrow> \<not> hottIsSending s \<Longrightarrow>
   hottCheckSerialData d v now s =
     (if requestId = HOTT_BINARY_MODE_REQUEST_ID d \<and> address = 0x8A \<and> sensors_GPS v then
        s\<lparr>lookingForRequest := True, hottPort := (hottPort s)\<lparr>rxq := []\<rparr>,
          hottMsg := Some (GPS_BUFFER, 0),
          hottMsgRemainingBytesToSendCount := word_of_int (int (sizeof_GPS_MSG d) + 1)\<rparr>
      else if requestId = HOTT_BINARY_MODE_REQUEST_ID d \<and> address = 0x8E then
        s\<lparr>lookingForRequest := True, hottPort := (hottPort s)\<lparr>rxq := []\<rparr>,
          hottMsg := Some (EAM_BUFFER, 0),
          hottMsgRemainingBytesToSendCount := word_of_int (int (sizeof_EAM_MSG d) + 1)\<rparr>
      else s\<lparr>lookingForRequest := True, hottPort := (hottPort s)\<lparr>rxq := []\<rparr>\<rparr>)"
proof -
  assume q: "rxq (hottPort s) = [requestId, address]" and l: "\<not> lookingForRequest s"
    and t: "4000 \<le> now - lastHoTTRequestCheckAt s" and i: "\<not> hottIsSending s"
  have two: "bytesWaiting s = 2"
    using q by (simp add: bytesWaiting_def serialTotalBytesWaiting_def)
  have t': "HOTT_RX_SCHEDULE \<le> now - lastHoTTRequestCheckAt s"
    using t by (simp add: HOTT_RX_SCHEDULE_def)
  show ?thesis
    unfolding hottCheckSerialData_consume [OF two l t' q]
    using i
    by (simp add: processBinaryModeRequest_def hottSendGPSResponse_def hottSendEAMResponse_def
        hottSendResponse_def HOTT_CRC_SIZE_def)
qed

theorem request_dispatch_witness:
  "hottMsg (hottCheckSerialData hott_h v0 5000 (armed [0x80, 0x8A])) = Some (GPS_BUFFER, 0) \<and>
   hottMsgRemainingBytesToSendCount (hottCheckSerialData hott_h v0 5000 (armed [0x80, 0x8A])) = 5 \<and>
   hottMsg (hottCheckSerialData hott_h v0 5000 (armed [0x80, 0x8E])) = Some (EAM_BUFFER, 0) \<and>
   hottMsgRemainingBytesToSendCount (hottCheckSerialData hott_h v0 5000 (armed [0x80, 0x8E])) = 4 \<and>
   hottMsg (hottCheckSerialData hott_h v0 5000 (armed [0x80, 0x8D])) = None \<and>
   hottMsg (hottCheckSerialData hott_h v0 5000 (armed [0x7F, 0x8A])) = None"
proof -
  have h1: "rxq (hottPort (armed [a, b])) = [a, b]" for a b
    by (simp add: armed_eq)
  have h2: "\<not> lookingForRequest (armed [a, b])" for a b
    by (simp add: armed_eq)
  have h3: "4000 \<le> 5000 - lastHoTTRequestCheckAt (armed [a, b])" for a b
    by (simp add: armed_eq word_le_def)
  have h4: "\<not> hottIsSending (armed [a, b])" for a b
    by (simp add: armed_eq initHoTTTelemetry_def)
  have h5: "hottMsg (armed [a, b]) = None" for a b
    by (simp add: armed_eq initHoTTTelemetry_def)
  have g: "sensors_GPS v0" "HOTT_BINARY_MODE_REQUEST_ID hott_h = 0x80"
    "sizeof_GPS_MSG hott_h = 4" "sizeof_EAM_MSG hott_h = 3"
    by (simp_all add: v0_def hott_h_def)
  have gps: "hottMsg (hottCheckSerialData hott_h v0 5000 (armed [0x80, 0x8A])) = Some (GPS_BUFFER, 0) \<and>
     hottMsgRemainingBytesToSendCount (hottCheckSerialData hott_h v0 5000 (armed [0x80, 0x8A])) = 5"
    unfolding request_dispatch [where d = hott_h and v = v0, OF h1 h2 h3 h4] by (simp add: g)
  have eam: "hottMsg (hottCheckSerialData hott_h v0 5000 (armed [0x80, 0x8E])) = Some (EAM_BUFFER, 0) \<and>
     hottMsgRemainingBytesToSendCount (hottCheckSerialData hott_h v0 5000 (armed [0x80, 0x8E])) = 4"
    unfolding request_dispatch [where d = hott_h and v = v0, OF h1 h2 h3 h4] by (simp add: g)
  have other: "hottMsg (hottCheckSerialData hott_h v0 5000 (armed [0x80, 0x8D])) = None"
    unfolding request_dispatch [where d = hott_h and v = v0, OF h1 h2 h3 h4] by (simp add: g h5)
  have wrong: "hottMsg (hottCheckSerialData hott_h v0 5000 (armed [0x7F, 0x8A])) = None"
    unfolding request_dispatch [where d = hott_h and v = v0, OF h1 h2 h3 h4] by (simp add: g h5)
  show ?thesis using gps eam other wrong by simp
qed

text \<open>
  C3 as it is written fails when the GPS sensor is not enabled: the binary-mode request for the
  address 0x8A is consumed and no send is scheduled.
\<close>

theorem gps_request_without_gps_sensor:
  "rxq (hottPort (armed [0x80, 0x8A])) = [HOTT_BINARY_MODE_REQUEST_ID hott_h, 0x8A] \<and>
   \<not> lookingForRequest (armed [0x80, 0x8A]) \<and>
   4000 \<le> 5000 - lastHoTTRequestCheckAt (armed [0x80, 0x8A]) \<and>
   hottMsg (hottCheckSerialData hott_h (v0\<lparr>sensors_GPS := False\<rparr>) 5000 (armed [0x80, 0x8A])) = None \<and>
   rxq (hottPort (hottCheckSerialData hott_h (v0\<lparr>sensors_GPS := False\<rparr>) 5000 (armed [0x80, 0x8A]))) = []"
  by (simp add: armed_eq initHoTTTelemetry_def word_le_def hott_h_def
      hottCheckSerialData_def bytesWaiting_def serialTotalBytesWaiting_def u8_two_le_one Let_def
      HOTT_RX_SCHEDULE_def serialRead_def processBinaryModeRequest_def)

section \<open>Frame transmitter\<close>

lemma deref_frames:
  "hottGPSMessage s' = hottGPSMessage s \<Longrightarrow> hottEAMMessage s' = hottEAMMessage s \<Longrightarrow>
   deref d s' b off = deref d s b off"
  by (cases b) (simp_all add: deref_def buffer_bytes_def)

lemma deref_count_upd:
  "deref d (s\<lparr>hottMsgRemainingBytesToSendCount := c\<rparr>) b off = deref d s b off"
  by (rule deref_frames) simp_all

lemma buffer_bytes_frames:
  "hottGPSMessage s' = hottGPSMessage s \<Longrightarrow> hottEAMMessage s' = hottEAMMessage s \<Longrightarrow>
   buffer_bytes d s' b = buffer_bytes d s b"
  by (cases b) (simp_all add: buffer_bytes_def)

lemma buffer_bytes_length: "layout_ok d \<Longrightarrow> length (buffer_bytes d s b) = frame_size d b"
  by (cases b) (simp_all add: layout_ok_def buffer_bytes_def frame_size_def)

lemma frame_then_checksum_frames:
  "hottGPSMessage s' = hottGPSMessage s \<Longrightarrow> hottEAMMessage s' = hottEAMMessage s \<Longrightarrow>
   frame_then_checksum d s' b = frame_then_checksum d s b"
  by (simp add: frame_then_checksum_def buffer_bytes_frames [of s' s])

lemma hottSendTelemetryData_frames:
  "hottGPSMessage (hottSendTelemetryData d s) = hottGPSMessage s"
  "hottEAMMessage (hottSendTelemetryData d s) = hottEAMMessage s"
  "lastMessagesPreparedAt (hottSendTelemetryData d s) = lastMessagesPreparedAt s"
  by (simp_all add: hottSendTelemetryData_def Let_def hottSerialWrite_def
        split: option.splits prod.splits)

lemma hottSendTelemetryData_start:
  "\<not> hottIsSending s \<Longrightarrow>
   hottSendTelemetryData d s
     = s\<lparr>hottIsSending := True, hottPort := (hottPort s)\<lparr>mode := MODE_TX\<rparr>, hottMsgCrc := 0\<rparr>"
  by (simp add: hottSendTelemetryData_def serialSetMode_def)

lemma hottSendTelemetryData_complete:
  "hottIsSending s \<Longrightarrow> hottMsgRemainingBytesToSendCount s = 0 \<Longrightarrow>
   hottSendTelemetryData d s
     = s\<lparr>hottMsg := None, hottIsSending := False,
         hottPort := (hottPort s)\<lparr>mode := MODE_RX, rxq := []\<rparr>\<rparr>"
  by (simp add: hottSendTelemetryData_def serialSetMode_def flushHottRxBuffer_eq)

lemma hottSendTelemetryData_crc:
  "hottIsSending s \<Longrightarrow> hottMsgRemainingBytesToSendCount s = 1 \<Longrightarrow>
   hottSendTelemetryData d s
     = s\<lparr>hottMsgRemainingBytesToSendCount := 0, hottMsgCrc := hottMsgCrc s + 1,
         serialWrites := serialWrites s + 1,
         hottPort := (hottPort s)\<lparr>txlog := txlog (hottPort s) @ [hottMsgCrc s]\<rparr>\<rparr>"
  by (simp add: hottSendTelemetryData_def hottSerialWrite_def serialWrite_def Let_def)

lemma hottSendTelemetryData_byte:
  "hottIsSending s \<Longrightarrow> hottMsgRemainingBytesToSendCount s \<noteq> 0 \<Longrightarrow>
   hottMsgRemainingBytesToSendCount s \<noteq> 1 \<Longrightarrow> hottMsg s = Some (b, off) \<Longrightarrow>
   hottSendTelemetryData d s
     = s\<lparr>hottMsgRemainingBytesToSendCount := hottMsgRemainingBytesToSendCount s - 1,
         hottMsgCrc := hottMsgCrc s + deref d s b off,
         hottMsg := Some (b, off + 1),
         serialWrites := serialWrites s + 1,
         hottPort := (hottPort s)\<lparr>txlog := txlog (hottPort s) @ [deref d s b off]\<rparr>\<rparr>"
  by (simp add: hottSendTelemetryData_def hottSerialWrite_def serialWrite_def Let_def
      deref_count_upd)

lemma hottSendTelemetryData_sending:
  assumes "hottIsSending s" "hottMsg s = Some (b, off)"
  shows "(hottMsgRemainingBytesToSendCount s = 0 \<and>
          \<not> hottIsSending (hottSendTelemetryData d s) \<and> hottMsg (hottSendTelemetryData d s) = None \<and>
          txlog (hottPort (hottSendTelemetryData d s)) = txlog (hottPort s)) \<or>
         (hottMsgRemainingBytesToSendCount s = 1 \<and>
          hottIsSending (hottSendTelemetryData d s) \<and>
          hottMsg (hottSendTelemetryData d s) = Some (b, off) \<and>
          txlog (hottPort (hottSendTelemetryData d s)) = txlog (hottPort s) @ [hottMsgCrc s]) \<or>
         (hottMsgRemainingBytesToSendCount s \<noteq> 0 \<and> hottMsgRemainingBytesToSendCount s \<noteq> 1 \<and>
          hottIsSending (hottSendTelemetryData d s) \<and>
          hottMsg (hottSendTelemetryData d s) = Some (b, off + 1) \<and>
          txlog (hottPort (hottSendTelemetryData d s)) = txlog (hottPort s) @ [deref d s b off])"
proof -
  consider "hottMsgRemainingBytesToSendCount s = 0" | "hottMsgRemainingBytesToSendCount s = 1"
    | "hottMsgRemainingBytesToSendCount s \<noteq> 0" "hottMsgRemainingBytesToSendCount s \<noteq> 1"
    by blast
  then show ?thesis
  proof cases
    case 1
    show ?thesis unfolding hottSendTelemetryData_complete [OF assms(1) 1] using 1 by simp
  next
    case 2
    show ?thesis unfolding hottSendTelemetryData_crc [OF assms(1) 2] using assms 2 by simp
  next
    case 3
    show ?thesis unfolding hottSendTelemetryData_byte [OF assms(1) 3 assms(2)] using assms 3 by simp
  qed
qed

section \<open>Session dispatcher\<close>

lemma prepare_step_keeps:
  "hottIsSending (prepare_step d v now s) = hottIsSending s"
  "hottMsg (prepare_step d v now s) = hottMsg s"
  "hottMsgRemainingBytesToSendCount (prepare_step d v now s) = hottMsgRemainingBytesToSendCount s"
  "hottMsgCrc (prepare_step d v now s) = hottMsgCrc s"
  "hottPort (prepare_step d v now s) = hottPort s"
  "serialTimer (prepare_step d v now s) = serialTimer s"
  "lookingForRequest (prepare_step d v now s) = lookingForRequest s"
  "lastHoTTRequestCheckAt (prepare_step d v now s) = lastHoTTRequestCheckAt s"
  "serialWrites (prepare_step d v now s) = serialWrites s"
  by (simp_all add: prepare_step_def hottPrepareMessages_def Let_def)

lemma prepare_step_frames:
  "shouldPrepareHoTTMessages now s \<Longrightarrow>
     hottEAMMessage (prepare_step d v now s) = hottPrepareEAMResponse v (hottEAMMessage s) \<and>
     hottGPSMessage (prepare_step d v now s) = hottPrepareGPSResponse d v (hottGPSMessage s) \<and>
     lastMessagesPreparedAt (prepare_step d v now s) = now"
  "\<not> shouldPrepareHoTTMessages now s \<Longrightarrow> prepare_step d v now s = s"
  by (simp_all add: prepare_step_def hottPrepareMessages_def Let_def)

lemma handleHoTTTelemetry_prepare:
  "handleHoTTTelemetry d v now s =
     (let s = prepare_step d v now s;
          s = (if shouldCheckForHoTTRequest s then hottCheckSerialData d v now s else s)
      in if hottMsg s = None then s
         else if hottIsSending s \<and> now - serialTimer s < HOTT_TX_DELAY_US then s
         else (hottSendTelemetryData d s)\<lparr>serialTimer := now\<rparr>)"
  unfolding handleHoTTTelemetry_def prepare_step_def by (rule refl)

lemma handleHoTTTelemetry_sending:
  "hottIsSending s \<Longrightarrow> hottMsg s = Some m \<Longrightarrow>
   handleHoTTTelemetry d v now s =
     (if now - serialTimer s < HOTT_TX_DELAY_US then prepare_step d v now s
      else (hottSendTelemetryData d (prepare_step d v now s))\<lparr>serialTimer := now\<rparr>)"
  unfolding handleHoTTTelemetry_prepare Let_def
  by (simp add: shouldCheckForHoTTRequest_def prepare_step_keeps)

lemma handleHoTTTelemetry_sending_none:
  "hottIsSending s \<Longrightarrow> hottMsg s = None \<Longrightarrow>
   handleHoTTTelemetry d v now s = prepare_step d v now s"
  unfolding handleHoTTTelemetry_prepare Let_def
  by (simp add: shouldCheckForHoTTRequest_def prepare_step_keeps)

lemma handleHoTTTelemetry_idle:
  "\<not> hottIsSending s \<Longrightarrow>
   handleHoTTTelemetry d v now s =
     (if hottMsg (hottCheckSerialData d v now (prepare_step d v now s)) = None
      then hottCheckSerialData d v now (prepare_step d v now s)
      else if hottIsSending (hottCheckSerialData d v now (prepare_step d v now s)) \<and>
              now - serialTimer (hottCheckSerialData d v now (prepare_step d v now s)) < HOTT_TX_DELAY_US
      then hottCheckSerialData d v now (prepare_step d v now s)
      else (hottSendTelemetryData d (hottCheckSerialData d v now (prepare_step d v now s)))
             \<lparr>serialTimer := now\<rparr>)"
  unfolding handleHoTTTelemetry_prepare Let_def
  by (simp add: shouldCheckForHoTTRequest_def prepare_step_keeps)

lemma receive_fields [simp]:
  "hottIsSending (receive bs s) = hottIsSending s"
  "hottMsg (receive bs s) = hottMsg s"
  "hottMsgRemainingBytesToSendCount (receive bs s) = hottMsgRemainingBytesToSendCount s"
  "hottMsgCrc (receive bs s) = hottMsgCrc s"
  "serialTimer (receive bs s) = serialTimer s"
  "lookingForRequest (receive bs s) = lookingForRequest s"
  "lastHoTTRequestCheckAt (receive bs s) = lastHoTTRequestCheckAt s"
  "lastMessagesPreparedAt (receive bs s) = lastMessagesPreparedAt s"
  "hottGPSMessage (receive bs s) = hottGPSMessage s"
  "hottEAMMessage (receive bs s) = hottEAMMessage s"
  "serialWrites (receive bs s) = serialWrites s"
  "txlog (hottPort (receive bs s)) = txlog (hottPort s)"
  "mode (hottPort (receive bs s)) = mode (hottPort s)"
  "rxq (hottPort (receive bs s)) = rxq (hottPort s) @ bs"
  by (simp_all add: receive_def)

lemma tick_frames:
  "tick_now i - lastMessagesPreparedAt s < HOTT_MESSAGE_PREPARATION_FREQUENCY_5_HZ \<Longrightarrow>
   hottGPSMessage (tick d i s) = hottGPSMessage s \<and>
   hottEAMMessage (tick d i s) = hottEAMMessage s \<and>
   lastMessagesPreparedAt (tick d i s) = lastMessagesPreparedAt s"
proof -
  assume "tick_now i - lastMessagesPreparedAt s < HOTT_MESSAGE_PREPARATION_FREQUENCY_5_HZ"
  then have "\<not> shouldPrepareHoTTMessages (tick_now i) (receive (tick_rx i) s)"
    by (simp add: shouldPrepareHoTTMessages_def not_le)
  then have p: "prepare_step d (tick_vehicle i) (tick_now i) (receive (tick_rx i) s)
                  = receive (tick_rx i) s"
    by (rule prepare_step_frames(2))
  show ?thesis
    unfolding tick_def handleHoTTTelemetry_prepare Let_def p
    by (simp add: hottCheckSerialData_frames hottSendTelemetryData_frames)
qed

lemma tick_idle:
  assumes idle: "\<not> hottIsSending s"
  shows "\<exists>c. scheduled d s c \<and>
           lookingForRequest c = lookingForRequest (tick d i s) \<and>
           tick d i s =
             (if hottMsg c = None then c
              else c\<lparr>hottIsSending := True, hottPort := (hottPort c)\<lparr>mode := MODE_TX\<rparr>,
                     hottMsgCrc := 0, serialTimer := tick_now i\<rparr>)"
proof -
  let ?p = "prepare_step d (tick_vehicle i) (tick_now i) (receive (tick_rx i) s)"
  let ?c = "hottCheckSerialData d (tick_vehicle i) (tick_now i) ?p"
  have ir: "\<not> hottIsSending (receive (tick_rx i) s)" using idle by simp
  have ip: "\<not> hottIsSending ?p" using idle by (simp add: prepare_step_keeps)
  from hottCheckSerialData_idle [OF ip] have sc: "scheduled d ?p ?c" .
  then have ic: "\<not> hottIsSending ?c" by (simp add: scheduled_def)
  have "scheduled d s ?c"
    using sc by (simp add: scheduled_def prepare_step_keeps)
  moreover have "tick d i s =
             (if hottMsg ?c = None then ?c
              else ?c\<lparr>hottIsSending := True, hottPort := (hottPort ?c)\<lparr>mode := MODE_TX\<rparr>,
                     hottMsgCrc := 0, serialTimer := tick_now i\<rparr>)"
    unfolding tick_def handleHoTTTelemetry_idle [OF ir]
    using ic by (simp add: hottSendTelemetryData_start)
  moreover from this have "lookingForRequest ?c = lookingForRequest (tick d i s)" by simp
  ultimately show ?thesis by blast
qed

lemma tick_writes:
  "txlog (hottPort (tick d i s)) = txlog (hottPort s) \<or>
   (hottIsSending s \<and> HOTT_TX_DELAY_US \<le> tick_now i - serialTimer s \<and>
    serialTimer (tick d i s) = tick_now i \<and>
    (\<exists>b off. hottMsg s = Some (b, off) \<and>
       (if hottMsgRemainingBytesToSendCount s = 1
        then txlog (hottPort (tick d i s)) = txlog (hottPort s) @ [hottMsgCrc s]
        else txlog (hottPort (tick d i s)) = txlog (hottPort s) @ [deref d (tick d i s) b off] \<and>
             hottMsg (tick d i s) = Some (b, off + 1))))"
proof (cases "hottIsSending s")
  case False
  from tick_idle [OF False, of d i] obtain c where "scheduled d s c"
    and "tick d i s =
             (if hottMsg c = None then c
              else c\<lparr>hottIsSending := True, hottPort := (hottPort c)\<lparr>mode := MODE_TX\<rparr>,
                     hottMsgCrc := 0, serialTimer := tick_now i\<rparr>)"
    by blast
  then have "txlog (hottPort (tick d i s)) = txlog (hottPort s)"
    by (simp add: scheduled_def)
  then show ?thesis by simp
next
  case True
  let ?r = "receive (tick_rx i) s"
  let ?p = "prepare_step d (tick_vehicle i) (tick_now i) ?r"
  have sr: "hottIsSending ?r" using True by simp
  show ?thesis
  proof (cases "hottMsg s")
    case None
    then have "tick d i s = ?p"
      unfolding tick_def using handleHoTTTelemetry_sending_none [OF sr] by simp
    then show ?thesis by (simp add: prepare_step_keeps)
  next
    case (Some m)
    obtain b off where m: "m = (b, off)" by (cases m)
    have mr: "hottMsg ?r = Some (b, off)" using Some m by simp
    note h = handleHoTTTelemetry_sending [OF sr mr, of d "tick_vehicle i" "tick_now i"]
    show ?thesis
    proof (cases "tick_now i - serialTimer s < HOTT_TX_DELAY_US")
      case True
      then have "tick d i s = ?p" unfolding tick_def h by simp
      then show ?thesis by (simp add: prepare_step_keeps)
    next
      case False
      then have t: "tick d i s = (hottSendTelemetryData d ?p)\<lparr>serialTimer := tick_now i\<rparr>"
        unfolding tick_def h by simp
      have p: "hottIsSending ?p" "hottMsg ?p = Some (b, off)"
        using sr mr by (simp_all add: prepare_step_keeps)
      have fr: "deref d (tick d i s) b off = deref d ?p b off"
        unfolding t by (rule deref_frames) (simp_all add: hottSendTelemetryData_frames)
      from hottSendTelemetryData_sending [OF p, of d]
      have "txlog (hottPort (tick d i s)) = txlog (hottPort s) \<or>
            (if hottMsgRemainingBytesToSendCount s = 1
             then txlog (hottPort (tick d i s)) = txlog (hottPort s) @ [hottMsgCrc s]
             else txlog (hottPort (tick d i s)) = txlog (hottPort s) @ [deref d (tick d i s) b off] \<and>
                  hottMsg (tick d i s) = Some (b, off + 1))"
        unfolding fr unfolding t by (auto simp: prepare_step_keeps)
      moreover have "serialTimer (tick d i s) = tick_now i" unfolding t by simp
      moreover have "HOTT_TX_DELAY_US \<le> tick_now i - serialTimer s"
        using False by (simp add: not_less)
      ultimately show ?thesis using True Some m by blast
    qed
  qed
qed

lemma tick_waits:
  assumes "hottIsSending s" "tick_now i - serialTimer s < HOTT_TX_DELAY_US"
  shows "txlog (hottPort (tick d i s)) = txlog (hottPort s) \<and>
         serialTimer (tick d i s) = serialTimer s \<and> hottIsSending (tick d i s)"
proof -
  let ?r = "receive (tick_rx i) s"
  have sr: "hottIsSending ?r" using assms(1) by simp
  have "tick d i s = prepare_step d (tick_vehicle i) (tick_now i) ?r"
  proof (cases "hottMsg s")
    case None
    then show ?thesis
      unfolding tick_def using handleHoTTTelemetry_sending_none [OF sr] by simp
  next
    case (Some m)
    then have "hottMsg ?r = Some m" by simp
    from handleHoTTTelemetry_sending [OF sr this] assms(2) show ?thesis
      unfolding tick_def by simp
  qed
  with assms(1) show ?thesis by (simp add: prepare_step_keeps)
qed

lemma tick_keeps_idle:
  "(hottIsSending s \<longleftrightarrow> hottMsg s \<noteq> None) \<Longrightarrow>
   (hottIsSending (tick d i s) \<longleftrightarrow> hottMsg (tick d i s) \<noteq> None)"
proof (cases "hottIsSending s")
  case False
  assume "hottIsSending s \<longleftrightarrow> hottMsg s \<noteq> None"
  with False have none: "hottMsg s = None" by blast
  from tick_idle [OF False, of d i] obtain c where sc: "scheduled d s c"
    and t: "tick d i s =
             (if hottMsg c = None then c
              else c\<lparr>hottIsSending := True, hottPort := (hottPort c)\<lparr>mode := MODE_TX\<rparr>,
                     hottMsgCrc := 0, serialTimer := tick_now i\<rparr>)"
    by blast
  from sc have "\<not> hottIsSending c" by (simp add: scheduled_def)
  then show ?thesis unfolding t by auto
next
  case True
  assume "hottIsSending s \<longleftrightarrow> hottMsg s \<noteq> None"
  with True obtain b off where m: "hottMsg s = Some (b, off)" by auto
  let ?r = "receive (tick_rx i) s"
  let ?p = "prepare_step d (tick_vehicle i) (tick_now i) ?r"
  have sr: "hottIsSending ?r" "hottMsg ?r = Some (b, off)" using True m by simp_all
  note h = handleHoTTTelemetry_sending [OF sr, of d "tick_vehicle i" "tick_now i"]
  have p: "hottIsSending ?p" "hottMsg ?p = Some (b, off)"
    using sr by (simp_all add: prepare_step_keeps)
  show ?thesis
  proof (cases "tick_now i - serialTimer s < HOTT_TX_DELAY_US")
    case True
    then have "tick d i s = ?p" unfolding tick_def h by simp
    with p show ?thesis by simp
  next
    case False
    then have t: "tick d i s = (hottSendTelemetryData d ?p)\<lparr>serialTimer := tick_now i\<rparr>"
      unfolding tick_def h by simp
    from hottSendTelemetryData_sending [OF p, of d] show ?thesis unfolding t by auto
  qed
qed

text \<open>
  In every state that a session reaches from start-up a message is pending exactly when a send
  is in progress: an idle state has no pending message, as the theorems on sends below assume.
\<close>

lemma reachable_idle:
  "hottIsSending (run d ins (initHoTTTelemetry d)) \<longleftrightarrow> hottMsg (run d ins (initHoTTTelemetry d)) \<noteq> None"
proof -
  have "(hottIsSending s \<longleftrightarrow> hottMsg s \<noteq> None) \<Longrightarrow>
        (hottIsSending (run d ins s) \<longleftrightarrow> hottMsg (run d ins s) \<noteq> None)" for s
  proof (induction ins arbitrary: s)
    case Nil
    then show ?case by simp
  next
    case (Cons i ins)
    from tick_keeps_idle [OF Cons.prems, of d i] show ?case by (simp add: Cons.IH)
  qed
  then show ?thesis by (simp add: initHoTTTelemetry_def)
qed

section \<open>A session evaluated\<close>

lemmas eval_defs = tick_def tin_def receive_def handleHoTTTelemetry_def
  shouldPrepareHoTTMessages_def shouldCheckForHoTTRequest_def
  HOTT_MESSAGE_PREPARATION_FREQUENCY_5_HZ_def HOTT_TX_DELAY_US_def HOTT_RX_SCHEDULE_def
  hottCheckSerialData_def bytesWaiting_def serialTotalBytesWaiting_def u8_two_le_one
  serialRead_def processBinaryModeRequest_def hottSendGPSResponse_def hottSendEAMResponse_def
  hottSendResponse_def HOTT_CRC_SIZE_def hottSendTelemetryData_def serialSetMode_def
  hottSerialWrite_def serialWrite_def flushHottRxBuffer_eq deref_def buffer_bytes_def
  hottPrepareMessages_def word_le_def word_less_def Let_def

lemma hott_h_simps:
  "HOTT_BINARY_MODE_REQUEST_ID hott_h = 0x80" "sizeof_GPS_MSG hott_h = 4" "sizeof_EAM_MSG hott_h = 3"
  "gps_layout hott_h m = [start_byte m, gps_satelites m, gps_fix_char m, stop_byte m]"
  "eam_layout hott_h e = [eam_start_byte e, main_voltage_L e, eam_stop_byte e]"
  by (simp_all add: hott_h_def)

lemma hott_h_sizes: "sizeof_GPS_MSG hott_h \<le> 254" "sizeof_EAM_MSG hott_h \<le> 254"
  by (simp_all add: hott_h_def)

lemma hott_h_layout: "layout_ok hott_h"
  by (simp add: layout_ok_def hott_h_def)

lemma started_eq:
  "started = (initHoTTTelemetry hott_h)
     \<lparr>lastHoTTRequestCheckAt := 1000, lastMessagesPreparedAt := 250000,
      hottIsSending := True, hottMsg := Some (GPS_BUFFER, 0),
      hottMsgRemainingBytesToSendCount := 5,
      hottPort := \<lparr>mode = MODE_TX, rxq = [], txlog = []\<rparr>,
      hottGPSMessage := hottPrepareGPSResponse hott_h v0 (initialiseGPSMessage hott_h),
      hottEAMMessage := hottPrepareEAMResponse v0 (initialiseEAMMessage hott_h),
      serialTimer := 250000\<rparr>"
  unfolding started_def armed_eq
  by (simp add: eval_defs hott_h_simps initHoTTTelemetry_def v0_def)

lemma started_facts:
  "hottIsSending started" "hottMsg started = Some (GPS_BUFFER, 0)"
  "lastMessagesPreparedAt started = 250000" "rxq (hottPort started) = []"
  "lookingForRequest started" "serialTimer started = 250000"
  by (simp_all add: started_eq initHoTTTelemetry_def)

lemma started_bytes:
  "gps_layout hott_h (hottGPSMessage started) = [0x7C, 7, 0x33, 0x7D]"
  unfolding started_eq
  by (simp add: hott_h_simps hottPrepareGPSResponse_header initHoTTTelemetry_def
      initialiseGPSMessage_def v0_def GPS_FIX_CHAR_3D_def word_le_def)

lemma started_frame:
  "frame_then_checksum hott_h (tick hott_h (tin 250000 []) (armed [0x80, 0x8A])) GPS_BUFFER
     = [0x7C, 7, 0x33, 0x7D, 0x33]"
  using started_bytes by (simp add: started_def frame_then_checksum_def buffer_bytes_def)

lemma send_ticks_done:
  "\<not> hottIsSending (run_send hott_h send_ticks started) \<and>
   txlog (hottPort (run_send hott_h send_ticks started)) = [0x7C, 7, 0x33, 0x7D, 0x33] \<and>
   rxq (hottPort (run_send hott_h send_ticks started)) = [] \<and>
   mode (hottPort (run_send hott_h send_ticks started)) = MODE_RX"
  unfolding started_eq send_ticks_def
  by (simp add: eval_defs hott_h_simps hottPrepareGPSResponse_header initHoTTTelemetry_def
      initialiseGPSMessage_def v0_def GPS_FIX_CHAR_3D_def)

lemma two_ticks_sending:
  "hottIsSending (run_send hott_h two_ticks started)"
  unfolding started_eq two_ticks_def
  by (simp add: eval_defs hott_h_simps hottPrepareGPSResponse_header initHoTTTelemetry_def
      initialiseGPSMessage_def v0_def GPS_FIX_CHAR_3D_def)

lemma spaced_ticks_spaced:
  "spaced (tick_now (tin 250000 [])) spaced_ticks"
  "frame_size hott_h GPS_BUFFER + 2 \<le> length spaced_ticks"
  by (simp_all add: spaced_ticks_def tin_def HOTT_TX_DELAY_US_def word_le_def frame_size_def
        hott_h_def)

lemma spaced_ticks_quiet:
  "no_refresh_due spaced_ticks (tick hott_h (tin 250000 []) (armed [0x80, 0x8A]))"
  using started_facts(3)
  by (simp add: started_def no_refresh_due_def spaced_ticks_def tin_def
      HOTT_MESSAGE_PREPARATION_FREQUENCY_5_HZ_def word_less_def)

section \<open>Refresh of the frames\<close>




section \<open>A send, from the tick that starts it to the tick that completes it\<close>

lemma in_send_prepare_step [simp]:
  "in_send b N L W (prepare_step d v now s) = in_send b N L W s"
  by (simp add: in_send_def prepare_step_keeps)

lemma in_send_receive [simp]: "in_send b N L W (receive bs s) = in_send b N L W s"
  by (simp add: in_send_def)

lemma in_send_written:
  "in_send b N (txlog (hottPort s)) W s' \<Longrightarrow> written s s' = W"
  "send_done N (txlog (hottPort s)) W s' \<Longrightarrow> written s s' = W"
  by (simp_all add: in_send_def send_done_def written_def)

lemma in_send_closed:
  assumes "in_send b N L W s" "now - serialTimer s < HOTT_TX_DELAY_US"
  shows "handleHoTTTelemetry d v now s = prepare_step d v now s"
proof -
  from assms(1) have "hottIsSending s" "hottMsg s = Some (b, min (length W) N)"
    by (simp_all add: in_send_def)
  from handleHoTTTelemetry_sending [OF this] assms(2) show ?thesis by simp
qed

lemma in_send_open:
  assumes "in_send b N L W s" "\<not> now - serialTimer s < HOTT_TX_DELAY_US"
  shows "handleHoTTTelemetry d v now s
           = (hottSendTelemetryData d (prepare_step d v now s))\<lparr>serialTimer := now\<rparr>"
proof -
  from assms(1) have "hottIsSending s" "hottMsg s = Some (b, min (length W) N)"
    by (simp_all add: in_send_def)
  from handleHoTTTelemetry_sending [OF this] assms(2) show ?thesis by simp
qed

lemma in_send_complete:
  assumes inv: "in_send b N L W s" and len: "length W = N + 1"
  shows "hottSendTelemetryData d (prepare_step d v now s)
           = (prepare_step d v now s)\<lparr>hottMsg := None, hottIsSending := False,
                hottPort := (hottPort s)\<lparr>mode := MODE_RX, rxq := []\<rparr>\<rparr>"
proof -
  from inv have u: "unat (hottMsgRemainingBytesToSendCount s) = N + 1 - length W"
    and le: "length W \<le> N + 1" and sending: "hottIsSending s"
    by (simp_all add: in_send_def)
  from count_cases [OF u le] len have "hottMsgRemainingBytesToSendCount s = 0" by simp
  with sending show ?thesis
    using hottSendTelemetryData_complete [of "prepare_step d v now s" d]
    by (simp add: prepare_step_keeps)
qed

lemma in_send_crc:
  assumes inv: "in_send b N L W s" and len: "length W = N"
  shows "hottSendTelemetryData d (prepare_step d v now s)
           = (prepare_step d v now s)\<lparr>hottMsgRemainingBytesToSendCount := 0,
                hottMsgCrc := hottMsgCrc s + 1, serialWrites := serialWrites s + 1,
                hottPort := (hottPort s)\<lparr>txlog := L @ W @ [sum_list W]\<rparr>\<rparr>"
proof -
  from inv have u: "unat (hottMsgRemainingBytesToSendCount s) = N + 1 - length W"
    and le: "length W \<le> N + 1" and sending: "hottIsSending s"
    and crc: "hottMsgCrc s = sum_list W" and tx: "txlog (hottPort s) = L @ W"
    using len by (simp_all add: in_send_def)
  from count_cases [OF u le] len have "hottMsgRemainingBytesToSendCount s = 1" by simp
  with sending crc tx show ?thesis
    using hottSendTelemetryData_crc [of "prepare_step d v now s" d]
    by (simp add: prepare_step_keeps)
qed

lemma in_send_byte:
  assumes inv: "in_send b N L W s" and len: "length W < N"
  shows "hottSendTelemetryData d (prepare_step d v now s)
           = (prepare_step d v now s)\<lparr>
                hottMsgRemainingBytesToSendCount := hottMsgRemainingBytesToSendCount s - 1,
                hottMsgCrc := sum_list W + deref d (prepare_step d v now s) b (length W),
                hottMsg := Some (b, length W + 1),
                serialWrites := serialWrites s + 1,
                hottPort := (hottPort s)\<lparr>txlog :=
                   L @ W @ [deref d (prepare_step d v now s) b (length W)]\<rparr>\<rparr>"
proof -
  from inv have u: "unat (hottMsgRemainingBytesToSendCount s) = N + 1 - length W"
    and le: "length W \<le> N + 1" and sending: "hottIsSending s"
    and crc: "hottMsgCrc s = sum_list W" and tx: "txlog (hottPort s) = L @ W"
    and msg: "hottMsg s = Some (b, length W)"
    using len by (simp_all add: in_send_def)
  from count_cases [OF u le] len
  have "hottMsgRemainingBytesToSendCount s \<noteq> 0" "hottMsgRemainingBytesToSendCount s \<noteq> 1"
    by simp_all
  with sending crc tx msg show ?thesis
    using hottSendTelemetryData_byte [of "prepare_step d v now s" b "length W" d]
    by (simp add: prepare_step_keeps)
qed

text \<open>
  One tick in the course of a send: it comes too early and the send stands still, or it writes
  one more byte, or it completes the send. The request window is not touched.
\<close>

lemma tick_in_send:
  assumes inv: "in_send b N L W s"
  shows "lookingForRequest (tick d i s) = lookingForRequest s \<and>
         lastHoTTRequestCheckAt (tick d i s) = lastHoTTRequestCheckAt s \<and>
         ((tick_now i - serialTimer s < HOTT_TX_DELAY_US \<and> in_send b N L W (tick d i s) \<and>
           serialTimer (tick d i s) = serialTimer s \<and>
           mode (hottPort (tick d i s)) = mode (hottPort s) \<and>
           rxq (hottPort (tick d i s)) = rxq (hottPort s) @ tick_rx i) \<or>
          (HOTT_TX_DELAY_US \<le> tick_now i - serialTimer s \<and>
           (\<exists>c. in_send b N L (W @ [c]) (tick d i s)) \<and>
           serialTimer (tick d i s) = tick_now i \<and>
           mode (hottPort (tick d i s)) = mode (hottPort s) \<and>
           rxq (hottPort (tick d i s)) = rxq (hottPort s) @ tick_rx i) \<or>
          (HOTT_TX_DELAY_US \<le> tick_now i - serialTimer s \<and> send_done N L W (tick d i s)))"
proof -
  let ?r = "receive (tick_rx i) s"
  let ?v = "tick_vehicle i" and ?now = "tick_now i"
  let ?p = "prepare_step d ?v ?now ?r"
  have inv': "in_send b N L W ?r" using inv by simp
  have t: "tick d i s = handleHoTTTelemetry d ?v ?now ?r" by (simp add: tick_def)
  from inv have le: "length W \<le> N + 1" by (simp add: in_send_def)
  show ?thesis
  proof (cases "?now - serialTimer s < HOTT_TX_DELAY_US")
    case True
    then have "tick d i s = ?p"
      using in_send_closed [OF inv', of ?now d ?v] t by simp
    with True inv show ?thesis by (simp add: prepare_step_keeps)
  next
    case False
    then have op: "tick d i s = (hottSendTelemetryData d ?p)\<lparr>serialTimer := ?now\<rparr>"
      using in_send_open [OF inv', of ?now d ?v] t by simp
    have late: "HOTT_TX_DELAY_US \<le> ?now - serialTimer s" using False by (simp add: not_less)
    from le consider "length W = N + 1" | "length W = N" | "length W < N" by linarith
    then show ?thesis
    proof cases
      case 1
      have "send_done N L W (tick d i s)"
        unfolding op in_send_complete [OF inv' 1]
        using inv 1 by (simp add: send_done_def in_send_def prepare_step_keeps)
      moreover have "lookingForRequest (tick d i s) = lookingForRequest s \<and>
         lastHoTTRequestCheckAt (tick d i s) = lastHoTTRequestCheckAt s"
        unfolding op in_send_complete [OF inv' 1] by (simp add: prepare_step_keeps)
      ultimately show ?thesis using late by simp
    next
      case 2
      have "in_send b N L (W @ [sum_list W]) (tick d i s)"
        unfolding op in_send_crc [OF inv' 2]
        using inv 2 by (simp add: in_send_def prepare_step_keeps)
      moreover have "lookingForRequest (tick d i s) = lookingForRequest s \<and>
         lastHoTTRequestCheckAt (tick d i s) = lastHoTTRequestCheckAt s \<and>
         serialTimer (tick d i s) = ?now \<and>
         mode (hottPort (tick d i s)) = mode (hottPort s) \<and>
         rxq (hottPort (tick d i s)) = rxq (hottPort s) @ tick_rx i"
        unfolding op in_send_crc [OF inv' 2] by (simp add: prepare_step_keeps)
      ultimately show ?thesis using late by blast
    next
      case 3
      let ?c = "deref d ?p b (length W)"
      have u: "unat (hottMsgRemainingBytesToSendCount s) = N + 1 - length W"
        using inv by (simp add: in_send_def)
      have u': "unat (hottMsgRemainingBytesToSendCount s - 1) = N + 1 - (length W + 1)"
        using count_cases [OF u le] 3 by simp
      have "in_send b N L (W @ [?c]) (tick d i s)"
        unfolding op in_send_byte [OF inv' 3]
        using inv 3 u' by (simp add: in_send_def prepare_step_keeps)
      moreover have "lookingForRequest (tick d i s) = lookingForRequest s \<and>
         lastHoTTRequestCheckAt (tick d i s) = lastHoTTRequestCheckAt s \<and>
         serialTimer (tick d i s) = ?now \<and>
         mode (hottPort (tick d i s)) = mode (hottPort s) \<and>
         rxq (hottPort (tick d i s)) = rxq (hottPort s) @ tick_rx i"
        unfolding op in_send_byte [OF inv' 3] by (simp add: prepare_step_keeps)
      ultimately show ?thesis using late by blast
    qed
  qed
qed

lemma tick_in_send_bytes:
  assumes inv: "in_send b (frame_size d b) L W s" and ok: "layout_ok d"
    and quiet: "tick_now i - lastMessagesPreparedAt s < HOTT_MESSAGE_PREPARATION_FREQUENCY_5_HZ"
    and pre: "W = take (length W) (frame_then_checksum d s b)"
    and more: "in_send b (frame_size d b) L (W @ [c]) (tick d i s)"
  shows "W @ [c] = take (length (W @ [c])) (frame_then_checksum d s b)"
proof -
  let ?F = "buffer_bytes d s b"
  have lenF: "length ?F = frame_size d b" using ok by (rule buffer_bytes_length)
  from more have le: "length W \<le> frame_size d b" by (simp add: in_send_def)
  from inv have tx: "txlog (hottPort s) = L @ W" and sending: "hottIsSending s"
    and msg: "hottMsg s = Some (b, min (length W) (frame_size d b))"
    and u: "unat (hottMsgRemainingBytesToSendCount s) = frame_size d b + 1 - length W"
    and crc: "length W \<le> frame_size d b \<longrightarrow> hottMsgCrc s = sum_list W"
    by (simp_all add: in_send_def)
  from more have tx': "txlog (hottPort (tick d i s)) = L @ W @ [c]" by (simp add: in_send_def)
  from tick_frames [OF quiet, of d] have fr: "buffer_bytes d (tick d i s) b = ?F"
    by (intro buffer_bytes_frames) simp_all
  from tick_writes [of d i s] tx tx' msg le
  have c: "c = (if hottMsgRemainingBytesToSendCount s = 1 then hottMsgCrc s
                else deref d (tick d i s) b (length W))"
    by (auto split: if_splits)
  have nth: "c = frame_then_checksum d s b ! length W"
  proof (cases "length W = frame_size d b")
    case True
    with u have "unat (hottMsgRemainingBytesToSendCount s) = unat (1::u8)" by simp
    then have "hottMsgRemainingBytesToSendCount s = 1" by (simp only: word_unat_eq_iff)
    with c crc True have "c = sum_list W" by simp
    moreover from pre True lenF have "W = ?F" by (simp add: frame_then_checksum_def)
    ultimately show ?thesis using True lenF by (simp add: frame_then_checksum_def nth_append)
  next
    case False
    with le have lt: "length W < frame_size d b" by simp
    with u have "unat (hottMsgRemainingBytesToSendCount s) \<noteq> unat (1::u8)" by simp
    then have "hottMsgRemainingBytesToSendCount s \<noteq> 1" by auto
    with c have "c = deref d (tick d i s) b (length W)" by simp
    also have "\<dots> = ?F ! length W" using lt lenF fr by (simp add: deref_def)
    finally show ?thesis using lt lenF by (simp add: frame_then_checksum_def nth_append)
  qed
  have "length W < length (frame_then_checksum d s b)"
    using le lenF by (simp add: frame_then_checksum_def)
  from take_Suc_snoc [OF this] pre nth show ?thesis by simp
qed

text \<open>The tick that starts a send leaves the state in which a send of no bytes yet stands.\<close>

lemma tick_start:
  assumes idle: "\<not> hottIsSending s" "hottMsg s = None"
    and started: "hottIsSending (tick d i s)"
    and sizes: "sizeof_GPS_MSG d \<le> 254" "sizeof_EAM_MSG d \<le> 254"
  shows "\<exists>b. in_send b (frame_size d b) (txlog (hottPort s)) [] (tick d i s) \<and>
             mode (hottPort (tick d i s)) = MODE_TX \<and> serialTimer (tick d i s) = tick_now i"
proof -
  from tick_idle [OF idle(1), of d i] obtain c where sc: "scheduled d s c"
    and t: "tick d i s =
             (if hottMsg c = None then c
              else c\<lparr>hottIsSending := True, hottPort := (hottPort c)\<lparr>mode := MODE_TX\<rparr>,
                     hottMsgCrc := 0, serialTimer := tick_now i\<rparr>)"
    by blast
  from sc have ic: "\<not> hottIsSending c" by (simp add: scheduled_def)
  with started t have some: "hottMsg c \<noteq> None" by (cases "hottMsg c = None") simp_all
  with sc idle(2) obtain b where m: "hottMsg c = Some (b, 0)"
    and n: "hottMsgRemainingBytesToSendCount c = word_of_int (int (frame_size d b) + 1)"
    by (auto simp: scheduled_def)
  have "frame_size d b \<le> 254" using sizes by (cases b) (simp_all add: frame_size_def)
  then have u: "unat (hottMsgRemainingBytesToSendCount c) = frame_size d b + 1"
    unfolding n by (rule unat_count)
  from sc have tx: "txlog (hottPort c) = txlog (hottPort s)" by (simp add: scheduled_def)
  have "in_send b (frame_size d b) (txlog (hottPort s)) [] (tick d i s)"
    unfolding t using m u tx by (simp add: in_send_def)
  moreover have "mode (hottPort (tick d i s)) = MODE_TX \<and> serialTimer (tick d i s) = tick_now i"
    unfolding t using m by simp
  ultimately show ?thesis by blast
qed

lemma tick_start_msg:
  assumes idle: "\<not> hottIsSending s" "hottMsg s = None"
    and msg: "hottMsg (tick d i s) = Some (b, k)"
    and sizes: "sizeof_GPS_MSG d \<le> 254" "sizeof_EAM_MSG d \<le> 254"
  shows "k = 0 \<and> in_send b (frame_size d b) (txlog (hottPort s)) [] (tick d i s) \<and>
         mode (hottPort (tick d i s)) = MODE_TX \<and> serialTimer (tick d i s) = tick_now i"
proof -
  from tick_idle [OF idle(1), of d i] obtain c where sc: "scheduled d s c"
    and t: "tick d i s =
             (if hottMsg c = None then c
              else c\<lparr>hottIsSending := True, hottPort := (hottPort c)\<lparr>mode := MODE_TX\<rparr>,
                     hottMsgCrc := 0, serialTimer := tick_now i\<rparr>)"
    by blast
  from msg t have "hottMsg c \<noteq> None" by (cases "hottMsg c = None") simp_all
  with t have started: "hottIsSending (tick d i s)" by simp
  from tick_start [OF idle started sizes] obtain b' where
    b': "in_send b' (frame_size d b') (txlog (hottPort s)) [] (tick d i s)"
      "mode (hottPort (tick d i s)) = MODE_TX" "serialTimer (tick d i s) = tick_now i"
    by blast
  from b'(1) msg have "b' = b" "k = 0" by (simp_all add: in_send_def)
  with b' show ?thesis by simp
qed

lemma run_send_idle: "\<not> hottIsSending s \<Longrightarrow> run_send d ins s = s"
  by (cases ins) simp_all

lemma run_send_run: "hottIsSending (run_send d ins s) \<Longrightarrow> run_send d ins s = run d ins s"
proof (induction ins arbitrary: s)
  case Nil
  show ?case by simp
next
  case (Cons i ins)
  show ?case
  proof (cases "hottIsSending s")
    case True
    with Cons show ?thesis by simp
  next
    case False
    with Cons.prems show ?thesis by simp
  qed
qed

lemma run_send_in_send:
  "in_send b N L W s \<Longrightarrow>
   \<exists>X. lookingForRequest (run_send d ins s) = lookingForRequest s \<and>
       lastHoTTRequestCheckAt (run_send d ins s) = lastHoTTRequestCheckAt s \<and>
       ((in_send b N L (W @ X) (run_send d ins s) \<and>
         mode (hottPort (run_send d ins s)) = mode (hottPort s) \<and>
         rxq (hottPort (run_send d ins s)) = rxq (hottPort s) @ concat (map tick_rx ins)) \<or>
        send_done N L (W @ X) (run_send d ins s))"
proof (induction ins arbitrary: s W)
  case Nil
  then show ?case by (intro exI [of _ "[]"]) simp
next
  case (Cons i ins)
  from Cons.prems have sending: "hottIsSending s" by (simp add: in_send_def)
  then have r: "run_send d (i # ins) s = run_send d ins (tick d i s)" by simp
  from tick_in_send [OF Cons.prems, of d i]
  have keep: "lookingForRequest (tick d i s) = lookingForRequest s"
      "lastHoTTRequestCheckAt (tick d i s) = lastHoTTRequestCheckAt s"
    by simp_all
  from tick_in_send [OF Cons.prems, of d i]
  consider (same) "in_send b N L W (tick d i s)"
        "mode (hottPort (tick d i s)) = mode (hottPort s)"
        "rxq (hottPort (tick d i s)) = rxq (hottPort s) @ tick_rx i"
    | (more) c where "in_send b N L (W @ [c]) (tick d i s)"
        "mode (hottPort (tick d i s)) = mode (hottPort s)"
        "rxq (hottPort (tick d i s)) = rxq (hottPort s) @ tick_rx i"
    | (finished) "send_done N L W (tick d i s)"
    by blast
  then show ?case
  proof cases
    case same
    from Cons.IH [OF same(1)] obtain X where
      "lookingForRequest (run_send d ins (tick d i s)) = lookingForRequest (tick d i s) \<and>
       lastHoTTRequestCheckAt (run_send d ins (tick d i s)) = lastHoTTRequestCheckAt (tick d i s) \<and>
       ((in_send b N L (W @ X) (run_send d ins (tick d i s)) \<and>
         mode (hottPort (run_send d ins (tick d i s))) = mode (hottPort (tick d i s)) \<and>
         rxq (hottPort (run_send d ins (tick d i s)))
           = rxq (hottPort (tick d i s)) @ concat (map tick_rx ins)) \<or>
        send_done N L (W @ X) (run_send d ins (tick d i s)))"
      by blast
    then show ?thesis unfolding r using keep same(2,3) by (intro exI [of _ X]) simp
  next
    case more
    from Cons.IH [OF more(1)] obtain X where
      "lookingForRequest (run_send d ins (tick d i s)) = lookingForRequest (tick d i s) \<and>
       lastHoTTRequestCheckAt (run_send d ins (tick d i s)) = lastHoTTRequestCheckAt (tick d i s) \<and>
       ((in_send b N L ((W @ [c]) @ X) (run_send d ins (tick d i s)) \<and>
         mode (hottPort (run_send d ins (tick d i s))) = mode (hottPort (tick d i s)) \<and>
         rxq (hottPort (run_send d ins (tick d i s)))
           = rxq (hottPort (tick d i s)) @ concat (map tick_rx ins)) \<or>
        send_done N L ((W @ [c]) @ X) (run_send d ins (tick d i s)))"
      by blast
    then show ?thesis unfolding r using keep more(2,3) by (intro exI [of _ "c # X"]) simp
  next
    case finished
    then have "\<not> hottIsSending (tick d i s)" by (simp add: send_done_def)
    then have "run_send d ins (tick d i s) = tick d i s" by (rule run_send_idle)
    then show ?thesis unfolding r using keep finished by (intro exI [of _ "[]"]) simp
  qed
qed

text \<open>A send does complete: each tick that passes the delay moves it on.\<close>

lemma run_send_completes:
  "in_send b N L W s \<Longrightarrow> spaced (serialTimer s) ins \<Longrightarrow> N + 2 - length W \<le> length ins \<Longrightarrow>
   \<not> hottIsSending (run_send d ins s)"
proof (induction ins arbitrary: s W)
  case Nil
  then show ?case by (simp add: in_send_def)
next
  case (Cons i ins)
  from Cons.prems(1) have sending: "hottIsSending s" by (simp add: in_send_def)
  then have r: "run_send d (i # ins) s = run_send d ins (tick d i s)" by simp
  from Cons.prems(2) have late: "\<not> tick_now i - serialTimer s < HOTT_TX_DELAY_US"
    and rest: "spaced (tick_now i) ins" by (simp_all add: not_less)
  from tick_in_send [OF Cons.prems(1), of d i] late
  consider (more) c where "in_send b N L (W @ [c]) (tick d i s)"
        "serialTimer (tick d i s) = tick_now i"
    | (finished) "send_done N L W (tick d i s)"
    by blast
  then show ?case
  proof cases
    case more
    have "\<not> hottIsSending (run_send d ins (tick d i s))"
      using more(2) rest Cons.prems(3) by (intro Cons.IH [OF more(1)]) simp_all
    then show ?thesis unfolding r .
  next
    case finished
    then have idle: "\<not> hottIsSending (tick d i s)" by (simp add: send_done_def)
    then have "run_send d ins (tick d i s) = tick d i s" by (rule run_send_idle)
    with idle show ?thesis unfolding r by simp
  qed
qed

lemma run_send_bytes:
  "in_send b (frame_size d b) L W s \<Longrightarrow> layout_ok d \<Longrightarrow> no_refresh_due ins s \<Longrightarrow>
   W = take (length W) (frame_then_checksum d s b) \<Longrightarrow>
   \<exists>X. (in_send b (frame_size d b) L X (run_send d ins s) \<or>
        send_done (frame_size d b) L X (run_send d ins s)) \<and>
       X = take (length X) (frame_then_checksum d s b)"
proof (induction ins arbitrary: s W)
  case Nil
  then show ?case by auto
next
  case (Cons i ins)
  from Cons.prems(1) have sending: "hottIsSending s" by (simp add: in_send_def)
  then have r: "run_send d (i # ins) s = run_send d ins (tick d i s)" by simp
  from Cons.prems(3)
  have quiet: "tick_now i - lastMessagesPreparedAt s < HOTT_MESSAGE_PREPARATION_FREQUENCY_5_HZ"
    and rest: "no_refresh_due ins s"
    by (simp_all add: no_refresh_due_def)
  note fr = tick_frames [OF quiet, of d]
  from fr rest have rest': "no_refresh_due ins (tick d i s)" by (simp add: no_refresh_due_def)
  from fr have same_frame: "frame_then_checksum d (tick d i s) b = frame_then_checksum d s b"
    by (intro frame_then_checksum_frames) simp_all
  from tick_in_send [OF Cons.prems(1), of d i]
  consider (same) "in_send b (frame_size d b) L W (tick d i s)"
    | (more) c where "in_send b (frame_size d b) L (W @ [c]) (tick d i s)"
    | (finished) "send_done (frame_size d b) L W (tick d i s)"
    by blast
  then show ?case
  proof cases
    case same
    from Cons.IH [OF same Cons.prems(2) rest'] Cons.prems(4) show ?thesis
      unfolding r same_frame by simp
  next
    case more
    from tick_in_send_bytes [OF Cons.prems(1,2) quiet Cons.prems(4) more]
    have "W @ [c] = take (length (W @ [c])) (frame_then_checksum d (tick d i s) b)"
      unfolding same_frame .
    from Cons.IH [OF more Cons.prems(2) rest' this] show ?thesis
      unfolding r same_frame .
  next
    case finished
    then have "\<not> hottIsSending (tick d i s)" by (simp add: send_done_def)
    then have "run_send d ins (tick d i s) = tick d i s" by (rule run_send_idle)
    with finished Cons.prems(4) show ?thesis unfolding r by auto
  qed
qed

text \<open>
  C1. From an idle session, take a tick that starts a send and then any ticks up to the one that
  completes it. The tick that starts the send sets the checksum accumulator to 0, whatever it
  held, and writes nothing. The bytes written by the send are not empty, and the last of them
  is the sum of all the bytes written before it in this send, modulo 256.
\<close>

theorem send_checksum:
  "\<not> hottIsSending s \<Longrightarrow> hottMsg s = None \<Longrightarrow>
   sizeof_GPS_MSG d \<le> 254 \<Longrightarrow> sizeof_EAM_MSG d \<le> 254 \<Longrightarrow>
   hottIsSending (tick d i s) \<Longrightarrow> \<not> hottIsSending (run_send d ins (tick d i s)) \<Longrightarrow>
   hottMsgCrc (tick d i s) = 0 \<and>
   txlog (hottPort (tick d i s)) = txlog (hottPort s) \<and>
   txlog (hottPort (run_send d ins (tick d i s)))
     = txlog (hottPort s) @ written s (run_send d ins (tick d i s)) \<and>
   written s (run_send d ins (tick d i s)) \<noteq> [] \<and>
   last (written s (run_send d ins (tick d i s)))
     = sum_list (butlast (written s (run_send d ins (tick d i s)))) \<and>
   unat (last (written s (run_send d ins (tick d i s))))
     = sum_list (map unat (butlast (written s (run_send d ins (tick d i s))))) mod 256"
proof -
  assume idle: "\<not> hottIsSending s" "hottMsg s = None"
    and sizes: "sizeof_GPS_MSG d \<le> 254" "sizeof_EAM_MSG d \<le> 254"
    and started: "hottIsSending (tick d i s)"
    and finished: "\<not> hottIsSending (run_send d ins (tick d i s))"
  let ?s' = "run_send d ins (tick d i s)"
  from tick_start [OF idle started sizes] obtain b where
    inv: "in_send b (frame_size d b) (txlog (hottPort s)) [] (tick d i s)" by blast
  then have first: "hottMsgCrc (tick d i s) = 0" "txlog (hottPort (tick d i s)) = txlog (hottPort s)"
    by (simp_all add: in_send_def)
  from run_send_in_send [OF inv, of d ins] finished obtain X where
    fin: "send_done (frame_size d b) (txlog (hottPort s)) X ?s'"
    by (auto simp: in_send_def)
  then have w: "written s ?s' = X" by (rule in_send_written)
  from fin have x: "txlog (hottPort ?s') = txlog (hottPort s) @ X" "X \<noteq> []"
    "last X = sum_list (butlast X)"
    by (auto simp: send_done_def)
  from x(3) have "unat (last X) = sum_list (map unat (butlast X)) mod 256"
    by (simp only: unat_sum_list_u8)
  with first x show ?thesis unfolding w by simp
qed

theorem send_checksum_witness:
  "\<not> hottIsSending (armed [0x80, 0x8A]) \<and> hottMsg (armed [0x80, 0x8A]) = None \<and>
   sizeof_GPS_MSG hott_h \<le> 254 \<and> sizeof_EAM_MSG hott_h \<le> 254 \<and>
   hottIsSending (tick hott_h (tin 250000 []) (armed [0x80, 0x8A])) \<and>
   \<not> hottIsSending (run_send hott_h send_ticks (tick hott_h (tin 250000 []) (armed [0x80, 0x8A]))) \<and>
   written (armed [0x80, 0x8A])
     (run_send hott_h send_ticks (tick hott_h (tin 250000 []) (armed [0x80, 0x8A])))
     = [0x7C, 7, 0x33, 0x7D, 0x33] \<and>
   last (written (armed [0x80, 0x8A])
          (run_send hott_h send_ticks (tick hott_h (tin 250000 []) (armed [0x80, 0x8A]))))
     = sum_list (butlast (written (armed [0x80, 0x8A])
          (run_send hott_h send_ticks (tick hott_h (tin 250000 []) (armed [0x80, 0x8A])))))"
proof -
  note h = armed_idle(1,2) [of "0x80" "0x8A"] hott_h_sizes started_facts(1) [unfolded started_def]
  have f: "\<not> hottIsSending (run_send hott_h send_ticks (tick hott_h (tin 250000 []) (armed [0x80, 0x8A])))"
    using send_ticks_done by (simp add: started_def)
  have w: "written (armed [0x80, 0x8A])
     (run_send hott_h send_ticks (tick hott_h (tin 250000 []) (armed [0x80, 0x8A])))
     = [0x7C, 7, 0x33, 0x7D, 0x33]"
    using send_ticks_done by (simp add: written_def armed_idle started_def)
  from send_checksum [OF h f] h f w show ?thesis by simp
qed

text \<open>
  C6. From an idle session, take a tick that makes the frame \<open>b\<close> the pending message, and then
  any ticks, up to the one that completes the send. The send never writes more than
  \<^verbatim>\<open>sizeof + 1\<close> bytes, and when it is complete it has written exactly that many, the
  pointer is \<^verbatim>\<open>NULL\<close>, the port is back in receive mode and its receive queue is empty.
  The send is complete after \<^verbatim>\<open>sizeof + 2\<close> ticks that are each 3000 microseconds or more
  after the one before. A tick, in any state, writes nothing or one byte; it writes only if a
  send is in progress and 3000 microseconds or more have passed since the transmitter last ran
  (which is when it last wrote, or when it started the send), and it then records its own time;
  a tick that comes earlier during a send writes nothing and leaves the recorded time.
  The byte is the accumulator when the count is 1, and otherwise the byte at the pointer in
  the frame as the tick leaves it, and the pointer moves on by one. When the layout is that of a
  struct and no refresh is due during the send, the bytes written are the bytes of the frame,
  in order, followed by their sum.
\<close>

theorem send_completeness:
  "\<not> hottIsSending s \<Longrightarrow> hottMsg s = None \<Longrightarrow>
   sizeof_GPS_MSG d \<le> 254 \<Longrightarrow> sizeof_EAM_MSG d \<le> 254 \<Longrightarrow>
   hottMsg (tick d i s) = Some (b, k) \<Longrightarrow>
   length (written s (run_send d ins (tick d i s))) \<le> frame_size d b + 1 \<and>
   (\<not> hottIsSending (run_send d ins (tick d i s)) \<longrightarrow>
      length (written s (run_send d ins (tick d i s))) = frame_size d b + 1 \<and>
      hottMsg (run_send d ins (tick d i s)) = None \<and>
      mode (hottPort (run_send d ins (tick d i s))) = MODE_RX \<and>
      rxq (hottPort (run_send d ins (tick d i s))) = []) \<and>
   (spaced (tick_now i) ins \<and> frame_size d b + 2 \<le> length ins \<longrightarrow>
      \<not> hottIsSending (run_send d ins (tick d i s))) \<and>
   (txlog (hottPort (tick d j s')) = txlog (hottPort s') \<or>
    (hottIsSending s' \<and> 3000 \<le> tick_now j - serialTimer s' \<and>
     serialTimer (tick d j s') = tick_now j \<and>
     (\<exists>b' off. hottMsg s' = Some (b', off) \<and>
       (if hottMsgRemainingBytesToSendCount s' = 1
        then txlog (hottPort (tick d j s')) = txlog (hottPort s') @ [hottMsgCrc s']
        else txlog (hottPort (tick d j s')) = txlog (hottPort s') @ [deref d (tick d j s') b' off] \<and>
             hottMsg (tick d j s') = Some (b', off + 1))))) \<and>
   (hottIsSending s' \<and> tick_now j - serialTimer s' < 3000 \<longrightarrow>
      txlog (hottPort (tick d j s')) = txlog (hottPort s') \<and>
      serialTimer (tick d j s') = serialTimer s' \<and> hottIsSending (tick d j s')) \<and>
   (layout_ok d \<and> no_refresh_due ins (tick d i s) \<longrightarrow>
      written s (run_send d ins (tick d i s))
        = take (length (written s (run_send d ins (tick d i s))))
            (frame_then_checksum d (tick d i s) b))"
proof -
  assume idle: "\<not> hottIsSending s" "hottMsg s = None"
    and sizes: "sizeof_GPS_MSG d \<le> 254" "sizeof_EAM_MSG d \<le> 254"
    and msg: "hottMsg (tick d i s) = Some (b, k)"
  let ?s' = "run_send d ins (tick d i s)"
  from tick_start_msg [OF idle msg sizes]
  have inv: "in_send b (frame_size d b) (txlog (hottPort s)) [] (tick d i s)"
    and timer: "serialTimer (tick d i s) = tick_now i" by simp_all
  have bytes: "written s ?s' = take (length (written s ?s')) (frame_then_checksum d (tick d i s) b)"
    if "layout_ok d" "no_refresh_due ins (tick d i s)"
  proof -
    from run_send_bytes [OF inv that] obtain Y where
      y: "in_send b (frame_size d b) (txlog (hottPort s)) Y ?s' \<or>
          send_done (frame_size d b) (txlog (hottPort s)) Y ?s'"
      and t: "Y = take (length Y) (frame_then_checksum d (tick d i s) b)"
      by auto
    from y have "written s ?s' = Y" using in_send_written by blast
    with t show ?thesis by simp
  qed
  from run_send_in_send [OF inv, of d ins] obtain X where
    x: "in_send b (frame_size d b) (txlog (hottPort s)) X ?s' \<or>
        send_done (frame_size d b) (txlog (hottPort s)) X ?s'"
    by auto
  then have w: "written s ?s' = X" using in_send_written by blast
  have bound: "length (written s ?s') \<le> frame_size d b + 1"
    unfolding w using x by (auto simp: in_send_def send_done_def)
  have fin: "length (written s ?s') = frame_size d b + 1 \<and> hottMsg ?s' = None \<and>
      mode (hottPort ?s') = MODE_RX \<and> rxq (hottPort ?s') = []"
    if "\<not> hottIsSending ?s'"
    unfolding w using x that by (auto simp: in_send_def send_done_def)
  have live: "\<not> hottIsSending ?s'" if "spaced (tick_now i) ins" "frame_size d b + 2 \<le> length ins"
    using that timer by (intro run_send_completes [OF inv]) simp_all
  from tick_writes [of d j s']
  have step: "txlog (hottPort (tick d j s')) = txlog (hottPort s') \<or>
    (hottIsSending s' \<and> 3000 \<le> tick_now j - serialTimer s' \<and>
     serialTimer (tick d j s') = tick_now j \<and>
     (\<exists>b' off. hottMsg s' = Some (b', off) \<and>
       (if hottMsgRemainingBytesToSendCount s' = 1
        then txlog (hottPort (tick d j s')) = txlog (hottPort s') @ [hottMsgCrc s']
        else txlog (hottPort (tick d j s')) = txlog (hottPort s') @ [deref d (tick d j s') b' off] \<and>
             hottMsg (tick d j s') = Some (b', off + 1))))"
    by (simp only: HOTT_TX_DELAY_US_def)
  have wait: "txlog (hottPort (tick d j s')) = txlog (hottPort s') \<and>
      serialTimer (tick d j s') = serialTimer s' \<and> hottIsSending (tick d j s')"
    if "hottIsSending s'" "tick_now j - serialTimer s' < 3000"
    using that by (intro tick_waits) (simp_all add: HOTT_TX_DELAY_US_def)
  show ?thesis using bound fin live step wait bytes by blast
qed

theorem send_completeness_witness:
  "\<not> hottIsSending (armed [0x80, 0x8A]) \<and> hottMsg (armed [0x80, 0x8A]) = None \<and>
   sizeof_GPS_MSG hott_h \<le> 254 \<and> sizeof_EAM_MSG hott_h \<le> 254 \<and>
   hottMsg (tick hott_h (tin 250000 []) (armed [0x80, 0x8A])) = Some (GPS_BUFFER, 0) \<and>
   spaced (tick_now (tin 250000 [])) spaced_ticks \<and>
   frame_size hott_h GPS_BUFFER + 2 \<le> length spaced_ticks \<and>
   layout_ok hott_h \<and>
   no_refresh_due spaced_ticks (tick hott_h (tin 250000 []) (armed [0x80, 0x8A])) \<and>
   \<not> hottIsSending (run_send hott_h spaced_ticks (tick hott_h (tin 250000 []) (armed [0x80, 0x8A]))) \<and>
   written (armed [0x80, 0x8A])
     (run_send hott_h spaced_ticks (tick hott_h (tin 250000 []) (armed [0x80, 0x8A])))
     = [0x7C, 7, 0x33, 0x7D, 0x33] \<and>
   hottMsg (run_send hott_h spaced_ticks (tick hott_h (tin 250000 []) (armed [0x80, 0x8A]))) = None \<and>
   mode (hottPort (run_send hott_h spaced_ticks (tick hott_h (tin 250000 []) (armed [0x80, 0x8A]))))
     = MODE_RX \<and>
   rxq (hottPort (run_send hott_h spaced_ticks (tick hott_h (tin 250000 []) (armed [0x80, 0x8A])))) = [] \<and>
   hottIsSending (tick hott_h (tin 250000 []) (armed [0x80, 0x8A])) \<and>
   tick_now (tin 251000 []) - serialTimer (tick hott_h (tin 250000 []) (armed [0x80, 0x8A])) < 3000 \<and>
   txlog (hottPort (tick hott_h (tin 251000 []) (tick hott_h (tin 250000 []) (armed [0x80, 0x8A]))))
     = txlog (hottPort (tick hott_h (tin 250000 []) (armed [0x80, 0x8A])))"
proof -
  note h = armed_idle(1,2) [of "0x80" "0x8A"] hott_h_sizes started_facts(2) [unfolded started_def]
  note g = spaced_ticks_spaced hott_h_layout spaced_ticks_quiet
  have n: "frame_size hott_h GPS_BUFFER = 4" by (simp add: frame_size_def hott_h_def)
  have early: "hottIsSending (tick hott_h (tin 250000 []) (armed [0x80, 0x8A]))"
    "tick_now (tin 251000 []) - serialTimer (tick hott_h (tin 250000 []) (armed [0x80, 0x8A])) < 3000"
    using started_facts(1,6) by (simp_all add: started_def tin_def word_less_def)
  note t = send_completeness [OF h, where ins = spaced_ticks and j = "tin 251000 []"
      and s' = "tick hott_h (tin 250000 []) (armed [0x80, 0x8A])"]
  from t g have f:
    "\<not> hottIsSending (run_send hott_h spaced_ticks (tick hott_h (tin 250000 []) (armed [0x80, 0x8A])))"
    by blast
  with t have l: "length (written (armed [0x80, 0x8A])
     (run_send hott_h spaced_ticks (tick hott_h (tin 250000 []) (armed [0x80, 0x8A])))) = 5"
    and e: "hottMsg (run_send hott_h spaced_ticks (tick hott_h (tin 250000 []) (armed [0x80, 0x8A]))) = None"
     "mode (hottPort (run_send hott_h spaced_ticks (tick hott_h (tin 250000 []) (armed [0x80, 0x8A]))))
        = MODE_RX"
     "rxq (hottPort (run_send hott_h spaced_ticks (tick hott_h (tin 250000 []) (armed [0x80, 0x8A])))) = []"
    unfolding n by simp_all
  from t g have "written (armed [0x80, 0x8A])
     (run_send hott_h spaced_ticks (tick hott_h (tin 250000 []) (armed [0x80, 0x8A])))
     = take (length (written (armed [0x80, 0x8A])
          (run_send hott_h spaced_ticks (tick hott_h (tin 250000 []) (armed [0x80, 0x8A])))))
         (frame_then_checksum hott_h (tick hott_h (tin 250000 []) (armed [0x80, 0x8A])) GPS_BUFFER)"
    by blast
  then have w: "written (armed [0x80, 0x8A])
     (run_send hott_h spaced_ticks (tick hott_h (tin 250000 []) (armed [0x80, 0x8A])))
     = [0x7C, 7, 0x33, 0x7D, 0x33]"
    unfolding l started_frame by simp
  from t early have q:
    "txlog (hottPort (tick hott_h (tin 251000 []) (tick hott_h (tin 250000 []) (armed [0x80, 0x8A]))))
     = txlog (hottPort (tick hott_h (tin 250000 []) (armed [0x80, 0x8A])))"
    by blast
  show ?thesis using h g f w e early q by simp
qed

text \<open>
  C2. From an idle session, take a tick that makes the frame \<open>b\<close> the pending message, and then
  any ticks, with any bytes arriving, up to the one that completes the send. As long as the
  send is in progress the detector is not run and \<^verbatim>\<open>hottSendResponse\<close> changes nothing; the
  pending message is still the frame \<open>b\<close>, at the offset of the bytes written so far; the
  bytes that arrived are all in the receive queue, in order, none consumed; and the request
  window is as it was. When the send is complete no message is pending, and exactly the
  \<^verbatim>\<open>sizeof + 1\<close> bytes of one frame have been written.
\<close>

theorem single_send_in_flight:
  "\<not> hottIsSending s \<Longrightarrow> hottMsg s = None \<Longrightarrow>
   sizeof_GPS_MSG d \<le> 254 \<Longrightarrow> sizeof_EAM_MSG d \<le> 254 \<Longrightarrow>
   hottMsg (tick d i s) = Some (b, k) \<Longrightarrow>
   (hottIsSending (run_send d ins (tick d i s)) \<longrightarrow>
      run_send d ins (tick d i s) = run d ins (tick d i s) \<and>
      \<not> shouldCheckForHoTTRequest (run_send d ins (tick d i s)) \<and>
      hottSendResponse b' len (run_send d ins (tick d i s)) = run_send d ins (tick d i s) \<and>
      hottMsg (run_send d ins (tick d i s))
        = Some (b, min (length (written s (run_send d ins (tick d i s)))) (frame_size d b)) \<and>
      length (written s (run_send d ins (tick d i s))) \<le> frame_size d b + 1 \<and>
      rxq (hottPort (run_send d ins (tick d i s)))
        = rxq (hottPort (tick d i s)) @ concat (map tick_rx ins) \<and>
      lookingForRequest (run_send d ins (tick d i s)) = lookingForRequest (tick d i s) \<and>
      lastHoTTRequestCheckAt (run_send d ins (tick d i s)) = lastHoTTRequestCheckAt (tick d i s)) \<and>
   (\<not> hottIsSending (run_send d ins (tick d i s)) \<longrightarrow>
      hottMsg (run_send d ins (tick d i s)) = None \<and>
      length (written s (run_send d ins (tick d i s))) = frame_size d b + 1)"
proof -
  assume idle: "\<not> hottIsSending s" "hottMsg s = None"
    and sizes: "sizeof_GPS_MSG d \<le> 254" "sizeof_EAM_MSG d \<le> 254"
    and msg: "hottMsg (tick d i s) = Some (b, k)"
  let ?s' = "run_send d ins (tick d i s)"
  from tick_start_msg [OF idle msg sizes]
  have inv: "in_send b (frame_size d b) (txlog (hottPort s)) [] (tick d i s)" by simp
  from run_send_in_send [OF inv, of d ins] obtain X where
    keep: "lookingForRequest ?s' = lookingForRequest (tick d i s)"
        "lastHoTTRequestCheckAt ?s' = lastHoTTRequestCheckAt (tick d i s)"
    and x: "(in_send b (frame_size d b) (txlog (hottPort s)) X ?s' \<and>
             rxq (hottPort ?s') = rxq (hottPort (tick d i s)) @ concat (map tick_rx ins)) \<or>
            send_done (frame_size d b) (txlog (hottPort s)) X ?s'"
    by auto
  then have w: "written s ?s' = X" using in_send_written by blast
  have going: "run_send d ins (tick d i s) = run d ins (tick d i s) \<and>
      \<not> shouldCheckForHoTTRequest ?s' \<and>
      hottSendResponse b' len ?s' = ?s' \<and>
      hottMsg ?s' = Some (b, min (length (written s ?s')) (frame_size d b)) \<and>
      length (written s ?s') \<le> frame_size d b + 1 \<and>
      rxq (hottPort ?s') = rxq (hottPort (tick d i s)) @ concat (map tick_rx ins) \<and>
      lookingForRequest ?s' = lookingForRequest (tick d i s) \<and>
      lastHoTTRequestCheckAt ?s' = lastHoTTRequestCheckAt (tick d i s)"
    if sending: "hottIsSending ?s'"
  proof -
    from x sending have i: "in_send b (frame_size d b) (txlog (hottPort s)) X ?s'"
      and q: "rxq (hottPort ?s') = rxq (hottPort (tick d i s)) @ concat (map tick_rx ins)"
      by (auto simp: send_done_def)
    from i have "hottMsg ?s' = Some (b, min (length X) (frame_size d b))"
      "length X \<le> frame_size d b + 1"
      by (simp_all add: in_send_def)
    moreover have "\<not> shouldCheckForHoTTRequest ?s'" "hottSendResponse b' len ?s' = ?s'"
      using sending by (simp_all add: shouldCheckForHoTTRequest_def hottSendResponse_def)
    ultimately show ?thesis using run_send_run [OF sending] q keep unfolding w by simp
  qed
  have fin: "hottMsg ?s' = None \<and> length (written s ?s') = frame_size d b + 1"
    if "\<not> hottIsSending ?s'"
    unfolding w using x that by (auto simp: in_send_def send_done_def)
  show ?thesis using going fin by blast
qed

theorem single_send_in_flight_witness:
  "\<not> hottIsSending (armed [0x80, 0x8A]) \<and> hottMsg (armed [0x80, 0x8A]) = None \<and>
   sizeof_GPS_MSG hott_h \<le> 254 \<and> sizeof_EAM_MSG hott_h \<le> 254 \<and>
   hottMsg (tick hott_h (tin 250000 []) (armed [0x80, 0x8A])) = Some (GPS_BUFFER, 0) \<and>
   hottIsSending (run_send hott_h two_ticks (tick hott_h (tin 250000 []) (armed [0x80, 0x8A]))) \<and>
   rxq (hottPort (run hott_h two_ticks (tick hott_h (tin 250000 []) (armed [0x80, 0x8A]))))
     = [0x80, 0x8E] \<and>
   hottMsg (run hott_h two_ticks (tick hott_h (tin 250000 []) (armed [0x80, 0x8A])))
     = Some (GPS_BUFFER, min (length (written (armed [0x80, 0x8A])
          (run hott_h two_ticks (tick hott_h (tin 250000 []) (armed [0x80, 0x8A]))))) 4) \<and>
   \<not> hottIsSending (run_send hott_h send_ticks (tick hott_h (tin 250000 []) (armed [0x80, 0x8A]))) \<and>
   hottMsg (run_send hott_h send_ticks (tick hott_h (tin 250000 []) (armed [0x80, 0x8A]))) = None \<and>
   length (written (armed [0x80, 0x8A])
     (run_send hott_h send_ticks (tick hott_h (tin 250000 []) (armed [0x80, 0x8A])))) = 5"
proof -
  note h = armed_idle(1,2) [of "0x80" "0x8A"] hott_h_sizes started_facts(2) [unfolded started_def]
  have n: "frame_size hott_h GPS_BUFFER = 4" by (simp add: frame_size_def hott_h_def)
  have a: "hottIsSending (run_send hott_h two_ticks (tick hott_h (tin 250000 []) (armed [0x80, 0x8A])))"
    using two_ticks_sending by (simp add: started_def)
  have b: "\<not> hottIsSending (run_send hott_h send_ticks (tick hott_h (tin 250000 []) (armed [0x80, 0x8A])))"
    using send_ticks_done by (simp add: started_def)
  have q: "rxq (hottPort (tick hott_h (tin 250000 []) (armed [0x80, 0x8A]))) = []"
    "concat (map tick_rx two_ticks) = [0x80, 0x8E]"
    using started_facts(4) by (simp_all add: started_def two_ticks_def tin_def)
  from single_send_in_flight [OF h, where ins = two_ticks] a
  have c: "run_send hott_h two_ticks (tick hott_h (tin 250000 []) (armed [0x80, 0x8A]))
            = run hott_h two_ticks (tick hott_h (tin 250000 []) (armed [0x80, 0x8A]))"
    by blast
  from single_send_in_flight [OF h, where ins = two_ticks] a
  have d: "rxq (hottPort (run hott_h two_ticks (tick hott_h (tin 250000 []) (armed [0x80, 0x8A]))))
     = [0x80, 0x8E] \<and>
   hottMsg (run hott_h two_ticks (tick hott_h (tin 250000 []) (armed [0x80, 0x8A])))
     = Some (GPS_BUFFER, min (length (written (armed [0x80, 0x8A])
          (run hott_h two_ticks (tick hott_h (tin 250000 []) (armed [0x80, 0x8A]))))) 4)"
    unfolding c [symmetric] n q by simp
  from single_send_in_flight [OF h, where ins = send_ticks] b
  have e: "hottMsg (run_send hott_h send_ticks (tick hott_h (tin 250000 []) (armed [0x80, 0x8A]))) = None \<and>
   length (written (armed [0x80, 0x8A])
     (run_send hott_h send_ticks (tick hott_h (tin 250000 []) (armed [0x80, 0x8A])))) = 5"
    unfolding n by simp
  show ?thesis using h a b d e by simp
qed

end
